theory Spec2Isabelle
  imports Main "HOL-Library.AList"
begin

section \<open>JSONL ingestion into warehouse tables: a model of \<open>main.py\<close>\<close>

text \<open>
  The service reads JSONL files from a storage bucket, turns each file into a
  frame of records, submits the frame to the warehouse as an append load job and
  moves the file to \<open>Archive/\<close> or \<open>Error/\<close>.

  What the model fixes about the libraries the program calls:
  \<^item> text is a list of \<open>char\<close>; the line boundaries of \<open>str.splitlines\<close> and the
    white space of \<open>str.strip\<close> are the ones of Python below code point 256;
  \<^item> \<open>json.loads\<close> is a parameter: a function from a line to a JSON value, or
    \<open>None\<close> where Python raises \<open>JSONDecodeError\<close>;
  \<^item> a Python \<open>dict\<close> is an association list in insertion order; storing under an
    existing key keeps the key's position (\<open>AList.update\<close>);
  \<^item> the bucket is an association list from blob name to content, listed in its
    stored order; the listing is read once, before the first file is handled;
    the storage service is available, so the only storage error is the read of
    a blob that does not exist;
  \<^item> the outcome of a warehouse load job is a parameter: a function of the jobs
    submitted so far and the job, giving \<open>None\<close> when the job commits and the
    exception otherwise;
  \<^item> paths follow \<open>posixpath\<close>; the log is not modelled; the request body only
    selects the bucket and the dataset, so a run starts from the bucket's state.
\<close>

subsection \<open>Values, errors, frames\<close>

datatype json =
    JNull
  | JBool bool
  | JNum string
  | JStr string
  | JArr "json list"
  | JObj "(string \<times> json) list"

text \<open>A number is kept as its literal: the program never computes with one.\<close>

datatype py_error =
    KeyError string
  | TypeError
  | IndexError
  | NotFound string
  | LoadFailure string

type_synonym pydict = "(string \<times> json) list"

record dataframe =
  columns :: "string list"
  rows :: "pydict list"

datatype schema_field = SchemaField (field_name: string) (field_type: string)

record load_job =
  job_table :: string
  job_schema :: "schema_field list"
  job_frame :: dataframe

record services =
  loads :: "string \<Rightarrow> json option"
  load_result :: "load_job list \<Rightarrow> load_job \<Rightarrow> py_error option"

record world =
  blobs :: "(string \<times> string) list"
  jobs :: "load_job list"

datatype response = Message string | ErrorResponse py_error

subsection \<open>Strings\<close>

definition is_linebreak :: "char \<Rightarrow> bool" where
  "is_linebreak c \<longleftrightarrow>
     c \<in> set [CHR 0x0A, CHR 0x0B, CHR 0x0C, CHR 0x0D, CHR 0x1C, CHR 0x1D, CHR 0x1E, CHR 0x85]"

definition py_isspace :: "char \<Rightarrow> bool" where
  "py_isspace c \<longleftrightarrow>
     c \<in> set [CHR 0x09, CHR 0x0A, CHR 0x0B, CHR 0x0C, CHR 0x0D, CHR 0x1C, CHR 0x1D,
               CHR 0x1E, CHR 0x1F, CHR 0x20, CHR 0x85, CHR 0xA0]"

text \<open>\<open>not s.strip()\<close>: nothing is left once the white space is stripped.\<close>

definition is_blank :: "string \<Rightarrow> bool" where
  "is_blank s \<longleftrightarrow> list_all py_isspace s"

text \<open>
  \<open>str.splitlines()\<close>: a line ends at a boundary, \<open>\r\n\<close> is one boundary, and
  there is no empty last line after a final boundary.
\<close>

fun splitlines_from :: "string \<Rightarrow> string \<Rightarrow> string list" where
  "splitlines_from cur [] = (if cur = [] then [] else [cur])"
| "splitlines_from cur [c] = (if is_linebreak c then [cur] else [cur @ [c]])"
| "splitlines_from cur (c # d # cs) =
     (if c = CHR 0x0D \<and> d = CHR 0x0A then cur # splitlines_from [] cs
      else if is_linebreak c then cur # splitlines_from [] (d # cs)
      else splitlines_from (cur @ [c]) (d # cs))"

definition splitlines :: "string \<Rightarrow> string list" where
  "splitlines s = splitlines_from [] s"

definition startswith :: "string \<Rightarrow> string \<Rightarrow> bool" where
  "startswith s p \<longleftrightarrow> take (length p) s = p"

definition endswith :: "string \<Rightarrow> string \<Rightarrow> bool" where
  "endswith s p \<longleftrightarrow> length p \<le> length s \<and> drop (length s - length p) s = p"

text \<open>\<open>p in s\<close> for two strings: \<open>p\<close> occurs in \<open>s\<close>.\<close>

fun occurs_in :: "string \<Rightarrow> string \<Rightarrow> bool" where
  "occurs_in p [] = (p = [])"
| "occurs_in p (c # cs) = (take (length p) (c # cs) = p \<or> occurs_in p cs)"

text \<open>\<open>s.rsplit(sep)\<close> without a limit splits at every separator, as \<open>s.split(sep)\<close>.\<close>

fun rsplit :: "char \<Rightarrow> string \<Rightarrow> string list" where
  "rsplit sep [] = [ [] ]"
| "rsplit sep (c # cs) =
     (if c = sep then [] # rsplit sep cs
      else (case rsplit sep cs of
              [] \<Rightarrow> [ [c] ]
            | seg # segs \<Rightarrow> (c # seg) # segs))"

text \<open>\<open>os.path.basename\<close>: what follows the last slash.\<close>

definition basename :: "string \<Rightarrow> string" where
  "basename p = rev (takeWhile (\<lambda>c. c \<noteq> CHR ''/'') (rev p))"

text \<open>
  \<open>os.path.splitext\<close>: the extension starts at the last dot of the last path
  component, unless only dots come before it in that component.
\<close>

definition splitext :: "string \<Rightarrow> string \<times> string" where
  "splitext p =
     (let dir = rev (dropWhile (\<lambda>c. c \<noteq> CHR ''/'') (rev p));
          base = rev (takeWhile (\<lambda>c. c \<noteq> CHR ''/'') (rev p));
          ext = rev (takeWhile (\<lambda>c. c \<noteq> CHR ''.'') (rev base));
          stem = rev (tl (dropWhile (\<lambda>c. c \<noteq> CHR ''.'') (rev base)))
      in if CHR ''.'' \<in> set base \<and> (\<exists>c \<in> set stem. c \<noteq> CHR ''.'')
         then (dir @ stem, CHR ''.'' # ext)
         else (p, []))"

subsection \<open>Records from lines\<close>

text \<open>\<open>'payload' in json_obj\<close>: a key of a dict, an element of a list, a part of a
  string; any other value is not iterable.\<close>

fun payload_in :: "json \<Rightarrow> py_error + bool" where
  "payload_in (JObj kvs) = Inr (map_of kvs ''payload'' \<noteq> None)"
| "payload_in (JArr xs) = Inr (JStr ''payload'' \<in> set xs)"
| "payload_in (JStr s) = Inr (occurs_in ''payload'' s)"
| "payload_in _ = Inl TypeError"

text \<open>\<open>v[k]\<close> with a string key.\<close>

fun subscript :: "json \<Rightarrow> string \<Rightarrow> py_error + json" where
  "subscript (JObj kvs) k =
     (case map_of kvs k of None \<Rightarrow> Inl (KeyError k) | Some v \<Rightarrow> Inr v)"
| "subscript _ k = Inl TypeError"

text \<open>\<open>**v\<close> in a dict display: \<open>v\<close> must be a mapping.\<close>

fun mapping_items :: "json \<Rightarrow> py_error + pydict" where
  "mapping_items (JObj kvs) = Inr kvs"
| "mapping_items _ = Inl TypeError"

definition dict_merge :: "pydict \<Rightarrow> pydict \<Rightarrow> pydict" where
  "dict_merge d items = fold (\<lambda>(k, v). AList.update k v) items d"

text \<open>The dict display of lines 60 to 64, its values evaluated left to right.\<close>

definition make_record :: "json \<Rightarrow> py_error + pydict" where
  "make_record json_obj =
     (case subscript json_obj ''source_metadata'' of
        Inl e \<Rightarrow> Inl e
      | Inr md \<Rightarrow>
          (case subscript md ''change_type'' of
             Inl e \<Rightarrow> Inl e
           | Inr ct \<Rightarrow>
               (case subscript json_obj ''source_timestamp'' of
                  Inl e \<Rightarrow> Inl e
                | Inr ts \<Rightarrow>
                    (case subscript json_obj ''payload'' of
                       Inl e \<Rightarrow> Inl e
                     | Inr p \<Rightarrow>
                         (case mapping_items p of
                            Inl e \<Rightarrow> Inl e
                          | Inr items \<Rightarrow>
                              Inr (dict_merge [(''change_type'', ct), (''source_timestamp'', ts)]
                                     items))))))"

text \<open>
  The loop of \<open>load_json_to_dataframe\<close>. Only \<open>JSONDecodeError\<close> is caught, so any
  other exception of the loop body leaves the function.
\<close>

fun load_lines :: "(string \<Rightarrow> json option) \<Rightarrow> pydict list \<Rightarrow> string list \<Rightarrow> py_error + pydict list" where
  "load_lines ld records [] = Inr records"
| "load_lines ld records (line # ls) =
     (if \<not> is_blank line then
        (case ld line of
           None \<Rightarrow> load_lines ld records ls
         | Some json_obj \<Rightarrow>
             (case payload_in json_obj of
                Inl e \<Rightarrow> Inl e
              | Inr False \<Rightarrow> load_lines ld records ls
              | Inr True \<Rightarrow>
                  (case make_record json_obj of
                     Inl e \<Rightarrow> Inl e
                   | Inr record \<Rightarrow> load_lines ld (records @ [record]) ls)))
      else load_lines ld records ls)"

text \<open>
  \<open>pandas.DataFrame(records)\<close> for a list of dicts: one row per dict, the columns
  the keys of the dicts in the order of their first occurrence.
  \<open>pandas.DataFrame()\<close> has no column and no row.
\<close>

definition add_columns :: "string list \<Rightarrow> string list \<Rightarrow> string list" where
  "add_columns cols ks = foldl (\<lambda>cs k. if k \<in> set cs then cs else cs @ [k]) cols ks"

definition DataFrame :: "pydict list \<Rightarrow> dataframe" where
  "DataFrame records =
     \<lparr>columns = foldl add_columns [] (map (map fst) records), rows = records\<rparr>"

definition empty_DataFrame :: dataframe where
  "empty_DataFrame = \<lparr>columns = [], rows = []\<rparr>"

definition frame_of_records :: "pydict list \<Rightarrow> dataframe" where
  "frame_of_records records =
     (if records \<noteq> [] then DataFrame records else empty_DataFrame)"

definition load_json_to_dataframe :: "(string \<Rightarrow> json option) \<Rightarrow> string \<Rightarrow> py_error + dataframe" where
  "load_json_to_dataframe ld file_content =
     (case load_lines ld [] (splitlines file_content) of
        Inl e \<Rightarrow> Inl e
      | Inr records \<Rightarrow> Inr (frame_of_records records))"

subsection \<open>Bucket and warehouse\<close>

definition list_blobs :: "world \<Rightarrow> string list" where
  "list_blobs w = map fst (blobs w)"

definition blob_exists :: "world \<Rightarrow> string \<Rightarrow> bool" where
  "blob_exists w n \<longleftrightarrow> map_of (blobs w) n \<noteq> None"

definition download :: "world \<Rightarrow> string \<Rightarrow> py_error + string" where
  "download w n = (case map_of (blobs w) n of None \<Rightarrow> Inl (NotFound n) | Some c \<Rightarrow> Inr c)"

definition upload_from_string :: "world \<Rightarrow> string \<Rightarrow> string \<Rightarrow> world" where
  "upload_from_string w n c = w\<lparr>blobs := AList.update n c (blobs w)\<rparr>"

definition delete_blob :: "world \<Rightarrow> string \<Rightarrow> py_error + world" where
  "delete_blob w n =
     (if blob_exists w n then Inr (w\<lparr>blobs := AList.delete n (blobs w)\<rparr>)
      else Inl (NotFound n))"

definition schema_of :: "dataframe \<Rightarrow> schema_field list" where
  "schema_of df = map (\<lambda>col. SchemaField col ''STRING'') (columns df)"

definition create_or_append_table :: "services \<Rightarrow> world \<Rightarrow> string \<Rightarrow> dataframe \<Rightarrow> world \<times> py_error option" where
  "create_or_append_table sv w table_name df =
     (let job = \<lparr>job_table = table_name, job_schema = schema_of df, job_frame = df\<rparr>
      in (w\<lparr>jobs := jobs w @ [job]\<rparr>, load_result sv (jobs w) job))"

text \<open>Every exception inside \<open>move_blob_to_folder\<close> is logged and dropped.\<close>

definition move_blob_to_folder :: "world \<Rightarrow> string \<Rightarrow> string \<Rightarrow> world" where
  "move_blob_to_folder w n folder_name =
     (case download w n of
        Inl e \<Rightarrow> w
      | Inr content \<Rightarrow>
          (let w1 = upload_from_string w (folder_name @ ''/'' @ n) content
           in (case delete_blob w1 n of Inl e \<Rightarrow> w1 | Inr w2 \<Rightarrow> w2)))"

definition process_blob :: "services \<Rightarrow> world \<Rightarrow> string \<Rightarrow> string \<Rightarrow> world \<times> py_error option" where
  "process_blob sv w n table_name =
     (case download w n of
        Inl e \<Rightarrow> (w, Some e)
      | Inr file_content \<Rightarrow>
          if is_blank file_content then (move_blob_to_folder w n ''Error'', None)
          else (case load_json_to_dataframe (loads sv) file_content of
                  Inl e \<Rightarrow> (w, Some e)
                | Inr df \<Rightarrow> create_or_append_table sv w table_name df))"

definition create_folders :: "world \<Rightarrow> world" where
  "create_folders w =
     (let w1 = (if \<not> blob_exists w ''Archive/'' then upload_from_string w ''Archive/'' [] else w)
      in if \<not> blob_exists w1 ''Error/'' then upload_from_string w1 ''Error/'' [] else w1)"

text \<open>The handler moves the blob to \<open>Error\<close> and raises the exception again.\<close>

definition process_blob_with_error_handling :: "services \<Rightarrow> world \<Rightarrow> string \<Rightarrow> string \<Rightarrow> world \<times> py_error option" where
  "process_blob_with_error_handling sv w n table_name =
     (case process_blob sv w n table_name of
        (w1, None) \<Rightarrow>
          if \<not> blob_exists w1 n then (w1, None)
          else (move_blob_to_folder w1 n ''Archive'', None)
      | (w1, Some e) \<Rightarrow> (move_blob_to_folder w1 n ''Error'', Some e))"

text \<open>Lines 186 and 187: \<open>parts[1]\<close> raises \<open>IndexError\<close> on a single part.\<close>

definition table_name_of :: "string \<Rightarrow> py_error + string" where
  "table_name_of n =
     (let parts = rsplit (CHR ''_'') (fst (splitext (basename n)))
      in if 1 < length parts then Inr (parts ! 1) else Inl IndexError)"

text \<open>The loop over the listing; an exception ends it.\<close>

fun process_listing :: "services \<Rightarrow> world \<Rightarrow> string list \<Rightarrow> world \<times> py_error option" where
  "process_listing sv w [] = (w, None)"
| "process_listing sv w (n # ns) =
     (if startswith n ''Error/'' \<or> startswith n ''Archive/'' then process_listing sv w ns
      else if \<not> endswith n ''.jsonl'' then
        process_listing sv (move_blob_to_folder w n ''Error'') ns
      else (case table_name_of n of
              Inl e \<Rightarrow> (w, Some e)
            | Inr table_name \<Rightarrow>
                (case process_blob_with_error_handling sv w n table_name of
                   (w1, Some e) \<Rightarrow> (w1, Some e)
                 | (w1, None) \<Rightarrow> process_listing sv w1 ns)))"

definition success_message :: string where
  "success_message = ''JSON files ingested into BigQuery tables successfully!''"

definition ingest_json_to_bigquery :: "services \<Rightarrow> world \<Rightarrow> world \<times> response" where
  "ingest_json_to_bigquery sv w =
     (let w0 = create_folders w
      in (case process_listing sv w0 (list_blobs w0) of
            (w1, None) \<Rightarrow> (w1, Message success_message)
          | (w1, Some e) \<Rightarrow> (w1, ErrorResponse e)))"

subsection \<open>Lines as the specification describes them\<close>

text \<open>
  These three definitions follow the specification, not the code. A line is
  skipped when it is blank, is not JSON, or is a JSON object without a
  \<open>payload\<close> key. A line is a complete change event when it is a JSON object
  with \<open>source_metadata.change_type\<close>, \<open>source_timestamp\<close> and an object under
  \<open>payload\<close>; its record has \<open>change_type\<close> and \<open>source_timestamp\<close> first and
  the payload merged in last.
\<close>

definition skipped_line :: "(string \<Rightarrow> json option) \<Rightarrow> string \<Rightarrow> bool" where
  "skipped_line ld line \<longleftrightarrow>
     is_blank line \<or>
     (case ld line of
        None \<Rightarrow> True
      | Some (JObj kvs) \<Rightarrow> ''payload'' \<notin> set (map fst kvs)
      | Some _ \<Rightarrow> False)"

fun event_fields :: "json \<Rightarrow> (json \<times> json \<times> pydict) option" where
  "event_fields (JObj kvs) =
     (case map_of kvs ''source_metadata'' of
        Some (JObj md) \<Rightarrow>
          (case map_of md ''change_type'' of
             Some ct \<Rightarrow>
               (case map_of kvs ''source_timestamp'' of
                  Some ts \<Rightarrow>
                    (case map_of kvs ''payload'' of
                       Some (JObj pl) \<Rightarrow> Some (ct, ts, pl)
                     | _ \<Rightarrow> None)
                | None \<Rightarrow> None)
           | None \<Rightarrow> None)
      | _ \<Rightarrow> None)"
| "event_fields _ = None"

definition line_record :: "(string \<Rightarrow> json option) \<Rightarrow> string \<Rightarrow> pydict option" where
  "line_record ld line =
     (if is_blank line then None
      else (case ld line of
              None \<Rightarrow> None
            | Some j \<Rightarrow>
                (case event_fields j of
                   None \<Rightarrow> None
                 | Some (ct, ts, pl) \<Rightarrow>
                     Some (dict_merge [(''change_type'', ct), (''source_timestamp'', ts)] pl))))"

definition complete_line :: "(string \<Rightarrow> json option) \<Rightarrow> string \<Rightarrow> bool" where
  "complete_line ld line \<longleftrightarrow> line_record ld line \<noteq> None"

subsection \<open>Example data\<close>

text \<open>
  Eight lines and what \<open>json.loads\<close> returns for seven of them; the eighth is
  not JSON. \<open>example_loads\<close> agrees with \<open>json.loads\<close> on these lines, and no
  other line occurs in the examples below. Three warehouses: one that commits
  every job, one that fails every job for table \<open>b\<close>, one that fails every job
  whose schema has no column.
\<close>

definition insert_line :: string where
  "insert_line = ''{\"source_metadata\":{\"change_type\":\"INSERT\"},\"source_timestamp\":\"t1\",\"payload\":{\"id\":\"1\"}}''"

definition insert_json :: json where
  "insert_json = JObj [(''source_metadata'', JObj [(''change_type'', JStr ''INSERT'')]),
                       (''source_timestamp'', JStr ''t1''),
                       (''payload'', JObj [(''id'', JStr ''1'')])]"

definition override_line :: string where
  "override_line = ''{\"source_metadata\":{\"change_type\":\"DELETE\"},\"source_timestamp\":\"t2\",\"payload\":{\"id\":\"2\",\"change_type\":\"X\"}}''"

definition override_json :: json where
  "override_json = JObj [(''source_metadata'', JObj [(''change_type'', JStr ''DELETE'')]),
                         (''source_timestamp'', JStr ''t2''),
                         (''payload'', JObj [(''id'', JStr ''2''), (''change_type'', JStr ''X'')])]"

definition orphan_line :: string where
  "orphan_line = ''{\"payload\":{\"id\":\"3\"}}''"

definition orphan_json :: json where
  "orphan_json = JObj [(''payload'', JObj [(''id'', JStr ''3'')])]"

definition heartbeat_line :: string where
  "heartbeat_line = ''{\"id\":\"4\"}''"

definition heartbeat_json :: json where
  "heartbeat_json = JObj [(''id'', JStr ''4'')]"

definition untyped_line :: string where
  "untyped_line = ''{\"source_metadata\":{},\"source_timestamp\":\"t5\",\"payload\":{\"id\":\"5\"}}''"

definition untyped_json :: json where
  "untyped_json = JObj [(''source_metadata'', JObj []),
                        (''source_timestamp'', JStr ''t5''),
                        (''payload'', JObj [(''id'', JStr ''5'')])]"

definition untimed_line :: string where
  "untimed_line = ''{\"source_metadata\":{\"change_type\":\"INSERT\"},\"payload\":{\"id\":\"6\"}}''"

definition untimed_json :: json where
  "untimed_json = JObj [(''source_metadata'', JObj [(''change_type'', JStr ''INSERT'')]),
                        (''payload'', JObj [(''id'', JStr ''6'')])]"

definition scalar_payload_line :: string where
  "scalar_payload_line = ''{\"source_metadata\":{\"change_type\":\"INSERT\"},\"source_timestamp\":\"t7\",\"payload\":\"x\"}''"

definition scalar_payload_json :: json where
  "scalar_payload_json = JObj [(''source_metadata'', JObj [(''change_type'', JStr ''INSERT'')]),
                               (''source_timestamp'', JStr ''t7''),
                               (''payload'', JStr ''x'')]"

definition broken_line :: string where
  "broken_line = ''{broken''"

definition example_loads :: "string \<Rightarrow> json option" where
  "example_loads line =
     (if line = insert_line then Some insert_json
      else if line = override_line then Some override_json
      else if line = orphan_line then Some orphan_json
      else if line = heartbeat_line then Some heartbeat_json
      else if line = untyped_line then Some untyped_json
      else if line = untimed_line then Some untimed_json
      else if line = scalar_payload_line then Some scalar_payload_json
      else None)"

definition accepting :: services where
  "accepting = \<lparr>loads = example_loads, load_result = (\<lambda>submitted job. None)\<rparr>"

definition rejecting_b :: services where
  "rejecting_b = \<lparr>loads = example_loads,
     load_result = (\<lambda>submitted job.
        if job_table job = ''b'' then Some (LoadFailure ''injected'') else None)\<rparr>"

definition rejecting_empty :: services where
  "rejecting_empty = \<lparr>loads = example_loads,
     load_result = (\<lambda>submitted job.
        if job_schema job = [] then Some (LoadFailure ''no schema'') else None)\<rparr>"

text \<open>A bucket with three files, and the same bucket once the run has
  handled the first of them.\<close>

definition three_files :: world where
  "three_files = \<lparr>blobs = [(''evt_a.jsonl'', insert_line), (''orders.jsonl'', insert_line),
                            (''evt_c.jsonl'', insert_line)], jobs = []\<rparr>"


text \<open>Two file contents: one that mixes complete events with a blank line, a
  line that is not JSON and an object without payload; one whose first line has
  a payload and no \<open>source_metadata\<close>.\<close>

definition mixed_file :: string where
  "mixed_file = insert_line @ [CHR 0x0A] @ [CHR 0x0A] @ broken_line @ [CHR 0x0D, CHR 0x0A]
                @ heartbeat_line @ [CHR 0x0A] @ override_line @ [CHR 0x0A]"

definition orphan_first_file :: string where
  "orphan_first_file = orphan_line @ [CHR 0x0A] @ insert_line"

text \<open>Two more buckets: three complete files, and a file whose first line has
  no \<open>source_metadata\<close> followed by a complete file.\<close>

definition abc_files :: world where
  "abc_files = \<lparr>blobs = [(''evt_a.jsonl'', insert_line), (''evt_b.jsonl'', insert_line),
                          (''evt_c.jsonl'', insert_line)], jobs = []\<rparr>"

definition orphan_bucket :: world where
  "orphan_bucket = \<lparr>blobs = [(''evt_orders.jsonl'', orphan_first_file),
                              (''evt_next.jsonl'', insert_line)], jobs = []\<rparr>"

text \<open>A bucket whose only file has no complete event, a bucket whose only file
  is one space, and the load job of a frame without rows.\<close>

definition heartbeat_bucket :: world where
  "heartbeat_bucket = \<lparr>blobs = [(''evt_orders.jsonl'', heartbeat_line)], jobs = []\<rparr>"

definition blank_bucket :: world where
  "blank_bucket = \<lparr>blobs = [(''evt_orders.jsonl'', '' '')], jobs = []\<rparr>"

definition empty_job :: "string \<Rightarrow> load_job" where
  "empty_job table_name =
     \<lparr>job_table = table_name, job_schema = [], job_frame = empty_DataFrame\<rparr>"

text \<open>Three buckets that already hold both markers, listed in the order of
  their names: one with an archived file, a complete file and a text file; one
  where the file before the text file has a line without \<open>source_metadata\<close>;
  one where the file before the text file has no underscore in its name.\<close>

definition filter_bucket :: world where
  "filter_bucket = \<lparr>blobs = [(''Archive/'', []), (''Archive/old.jsonl'', insert_line),
                              (''Error/'', []), (''evt_a.jsonl'', insert_line),
                              (''notes.txt'', ''hello'')], jobs = []\<rparr>"

definition aborting_bucket :: world where
  "aborting_bucket = \<lparr>blobs = [(''Archive/'', []), (''Error/'', []),
                                (''evt_orders.jsonl'', orphan_first_file),
                                (''notes.txt'', ''hello'')], jobs = []\<rparr>"

definition unnamed_bucket :: world where
  "unnamed_bucket = \<lparr>blobs = [(''Archive/'', []), (''Error/'', []),
                               (''orders.jsonl'', insert_line),
                               (''readme.txt'', ''hello'')], jobs = []\<rparr>"

text \<open>Three more buckets with both markers: a file without a complete event,
  a file that is one space, and a file without a complete event whose name has
  no underscore.\<close>

definition quiet_bucket :: world where
  "quiet_bucket = \<lparr>blobs = [(''Archive/'', []), (''Error/'', []),
                             (''evt_orders.jsonl'', heartbeat_line)], jobs = []\<rparr>"

definition blank_marked_bucket :: world where
  "blank_marked_bucket = \<lparr>blobs = [(''Archive/'', []), (''Error/'', []),
                                    (''evt_orders.jsonl'', '' '')], jobs = []\<rparr>"

definition unnamed_quiet_bucket :: world where
  "unnamed_quiet_bucket = \<lparr>blobs = [(''Archive/'', []), (''Error/'', []),
                                     (''orders.jsonl'', heartbeat_line)], jobs = []\<rparr>"

section \<open>Properties\<close>

subsection \<open>Strings and paths\<close>

lemma takeWhile_neq_all: "c \<notin> set xs \<Longrightarrow> takeWhile (\<lambda>x. x \<noteq> c) xs = xs"
  by (induction xs) auto

lemma dropWhile_neq_all: "c \<notin> set xs \<Longrightarrow> dropWhile (\<lambda>x. x \<noteq> c) xs = []"
  by (induction xs) auto

lemma takeWhile_neq_first: "c \<notin> set xs \<Longrightarrow> takeWhile (\<lambda>x. x \<noteq> c) (xs @ c # ys) = xs"
  by (induction xs) auto

lemma dropWhile_neq_first: "c \<notin> set xs \<Longrightarrow> dropWhile (\<lambda>x. x \<noteq> c) (xs @ c # ys) = c # ys"
  by (induction xs) auto

lemma rsplit_nonempty: "rsplit sep s \<noteq> []"
  by (induction s) (auto split: list.splits)


lemma rsplit_hd: "hd (rsplit sep s) = takeWhile (\<lambda>c. c \<noteq> sep) s"
  by (induction s) (auto split: list.splits simp: rsplit_nonempty)

lemma rsplit_first_sep:
  "sep \<notin> set p \<Longrightarrow> rsplit sep (p @ sep # r) = p # rsplit sep r"
  by (induction p) auto

lemma basename_no_slash: "CHR ''/'' \<notin> set b \<Longrightarrow> basename b = b"
  by (simp add: basename_def takeWhile_neq_all)

lemma basename_dir:
  assumes "CHR ''/'' \<notin> set b"
  shows "basename (d @ CHR ''/'' # b) = b"
proof -
  have "CHR ''/'' \<notin> set (rev b)" using assms by simp
  then have "takeWhile (\<lambda>c. c \<noteq> CHR ''/'') (rev b @ CHR ''/'' # rev d) = rev b"
    by (rule takeWhile_neq_first)
  then show ?thesis by (simp add: basename_def)
qed

lemma splitext_jsonl:
  assumes "CHR ''/'' \<notin> set s" and "\<exists>c \<in> set s. c \<noteq> CHR ''.''"
  shows "splitext (s @ ''.jsonl'') = (s, ''.jsonl'')"
proof -
  let ?b = "s @ ''.jsonl''"
  have slash: "CHR ''/'' \<notin> set (rev ?b)" using assms(1) by simp
  have tw: "takeWhile (\<lambda>c. c \<noteq> CHR ''/'') (rev ?b) = rev ?b"
    using slash by (rule takeWhile_neq_all)
  have dw: "dropWhile (\<lambda>c. c \<noteq> CHR ''/'') (rev ?b) = []"
    using slash by (rule dropWhile_neq_all)
  have r: "rev ?b = ''lnosj'' @ CHR ''.'' # rev s" by simp
  have nd: "CHR ''.'' \<notin> set ''lnosj''" by simp
  have e: "takeWhile (\<lambda>c. c \<noteq> CHR ''.'') (rev ?b) = ''lnosj''"
    unfolding r using nd by (rule takeWhile_neq_first)
  have d: "dropWhile (\<lambda>c. c \<noteq> CHR ''.'') (rev ?b) = CHR ''.'' # rev s"
    unfolding r using nd by (rule dropWhile_neq_first)
  have dot: "CHR ''.'' \<in> set ?b" by simp
  show ?thesis
    unfolding splitext_def Let_def tw dw rev_rev_ident e d
    using assms(2) dot by simp
qed


lemma table_name_of_second_segment:
  assumes "CHR ''/'' \<notin> set p" "CHR ''/'' \<notin> set r" "CHR ''_'' \<notin> set p"
  shows "table_name_of (p @ ''_'' @ r @ ''.jsonl'') = Inr (takeWhile (\<lambda>c. c \<noteq> CHR ''_'') r)"
proof -
  let ?s = "p @ CHR ''_'' # r"
  have ns: "CHR ''/'' \<notin> set ?s" using assms by simp
  have nb: "CHR ''/'' \<notin> set (?s @ ''.jsonl'')" using assms by simp
  have b: "basename (?s @ ''.jsonl'') = ?s @ ''.jsonl''"
    using nb by (rule basename_no_slash)
  have x: "splitext (?s @ ''.jsonl'') = (?s, ''.jsonl'')"
    using ns by (rule splitext_jsonl) auto
  have parts: "rsplit (CHR ''_'') ?s = p # rsplit (CHR ''_'') r"
    using assms(3) by (rule rsplit_first_sep)
  have len: "1 < length (p # rsplit (CHR ''_'') r)"
    using rsplit_nonempty [of "CHR ''_''" r] by (cases "rsplit (CHR ''_'') r") auto
  have nth: "(p # rsplit (CHR ''_'') r) ! 1 = hd (rsplit (CHR ''_'') r)"
    using rsplit_nonempty [of "CHR ''_''" r] by (cases "rsplit (CHR ''_'') r") auto
  have "table_name_of (?s @ ''.jsonl'') = Inr (hd (rsplit (CHR ''_'') r))"
    unfolding table_name_of_def b x Let_def fst_conv parts using len nth by simp
  then show ?thesis by (simp add: rsplit_hd)
qed

lemma basename_append_dir:
  assumes "d = [] \<or> last d = CHR ''/''" and "CHR ''/'' \<notin> set b"
  shows "basename (d @ b) = b"
proof (cases d rule: rev_cases)
  case Nil
  then show ?thesis using assms(2) by (simp add: basename_no_slash)
next
  case (snoc d' c)
  then have "c = CHR ''/''" using assms(1) by simp
  then have "d @ b = d' @ CHR ''/'' # b" using snoc by simp
  then show ?thesis using basename_dir [OF assms(2), of d'] by simp
qed

lemma table_name_of_basename:
  "basename n = basename m \<Longrightarrow> table_name_of n = table_name_of m"
  by (simp add: table_name_of_def)

subsection \<open>Table name of a file\<close>

text \<open>
  C6. A file named \<open><prefix>_<table>[_<suffix>].jsonl\<close>, in any directory, goes to
  the table named by the second underscore-delimited segment of its base name
  without the extension: with \<open>p\<close> the text before the first underscore and \<open>r\<close>
  the text between that underscore and the extension, the table name is \<open>r\<close> up
  to its first underscore, or all of \<open>r\<close> when it has none.
\<close>

theorem table_name_is_second_segment:
  assumes "d = [] \<or> last d = CHR ''/''"
    and "CHR ''/'' \<notin> set p" and "CHR ''/'' \<notin> set r" and "CHR ''_'' \<notin> set p"
  shows "table_name_of (d @ p @ ''_'' @ r @ ''.jsonl'')
           = Inr (takeWhile (\<lambda>c. c \<noteq> CHR ''_'') r)
         \<and> Inr (rsplit (CHR ''_'') (p @ ''_'' @ r) ! 1)
           = table_name_of (d @ p @ ''_'' @ r @ ''.jsonl'')"
proof -
  let ?b = "p @ ''_'' @ r @ ''.jsonl''"
  have nb: "CHR ''/'' \<notin> set ?b" using assms(2,3) by simp
  have "basename (d @ ?b) = ?b"
    using assms(1) nb by (rule basename_append_dir)
  also have "\<dots> = basename ?b"
    using basename_no_slash [OF nb] by (rule sym)
  finally have "table_name_of (d @ ?b) = table_name_of ?b"
    by (rule table_name_of_basename)
  then have t: "table_name_of (d @ ?b) = Inr (takeWhile (\<lambda>c. c \<noteq> CHR ''_'') r)"
    using table_name_of_second_segment [OF assms(2,3,4)] by simp
  have "rsplit (CHR ''_'') (p @ CHR ''_'' # r) ! 1 = hd (rsplit (CHR ''_'') r)"
    using rsplit_nonempty [of "CHR ''_''" r] assms(4)
    by (cases "rsplit (CHR ''_'') r") (auto simp: rsplit_first_sep)
  then have "rsplit (CHR ''_'') (p @ ''_'' @ r) ! 1 = takeWhile (\<lambda>c. c \<noteq> CHR ''_'') r"
    by (simp add: rsplit_hd)
  with t show ?thesis by simp
qed

theorem table_name_is_second_segment_witness:
  "(''in/'' = [] \<or> last ''in/'' = CHR ''/'')
   \<and> CHR ''/'' \<notin> set ''evt'' \<and> CHR ''/'' \<notin> set ''orders_2024'' \<and> CHR ''_'' \<notin> set ''evt''
   \<and> table_name_of ''in/evt_orders_2024.jsonl'' = Inr ''orders''"
proof -
  have h1: "''in/'' = [] \<or> last ''in/'' = CHR ''/''" by simp
  have h2: "CHR ''/'' \<notin> set ''evt''" by simp
  have h3: "CHR ''/'' \<notin> set ''orders_2024''" by simp
  have h4: "CHR ''_'' \<notin> set ''evt''" by simp
  have "table_name_of (''in/'' @ ''evt'' @ ''_'' @ ''orders_2024'' @ ''.jsonl'')
          = Inr (takeWhile (\<lambda>c. c \<noteq> CHR ''_'') ''orders_2024'')"
    using table_name_is_second_segment [OF h1 h2 h3 h4] by (rule conjunct1)
  then have "table_name_of ''in/evt_orders_2024.jsonl'' = Inr ''orders''" by simp
  with h1 h2 h3 h4 show ?thesis by blast
qed

subsection \<open>Bucket operations and the listing loop\<close>

lemma jobs_move_blob_to_folder: "jobs (move_blob_to_folder w n f) = jobs w"
  by (simp add: move_blob_to_folder_def download_def upload_from_string_def delete_blob_def
        Let_def split: option.splits)

lemma move_blob_to_folder_missing:
  "map_of (blobs w) n = None \<Longrightarrow> move_blob_to_folder w n f = w"
  by (simp add: move_blob_to_folder_def download_def)

lemma folder_name_neq: "f @ ''/'' @ n \<noteq> n"
proof
  assume "f @ ''/'' @ n = n"
  then have "length (f @ ''/'' @ n) = length n" by simp
  then show False by simp
qed

lemma move_blob_to_folder_present:
  assumes "map_of (blobs w) n = Some c"
  shows "move_blob_to_folder w n f
           = w\<lparr>blobs := AList.delete n (AList.update (f @ ''/'' @ n) c (blobs w))\<rparr>"
proof -
  have "map_of (AList.update (f @ ''/'' @ n) c (blobs w)) n = Some c"
    using assms folder_name_neq [of f n] by (simp add: update_conv')
  then have "blob_exists (upload_from_string w (f @ ''/'' @ n) c) n"
    by (simp add: blob_exists_def upload_from_string_def)
  then show ?thesis
    using assms
    by (simp add: move_blob_to_folder_def download_def delete_blob_def Let_def
          upload_from_string_def)
qed

lemma move_blob_to_folder_lookup:
  assumes "map_of (blobs w) n = Some c"
  shows "map_of (blobs (move_blob_to_folder w n f)) m
           = (if m = n then None else if m = f @ ''/'' @ n then Some c else map_of (blobs w) m)"
  using folder_name_neq [of f n]
  by (simp add: move_blob_to_folder_present [OF assms] delete_conv' update_conv')

lemma process_listing_append:
  "process_listing sv w (xs @ ys)
     = (case process_listing sv w xs of
          (w1, None) \<Rightarrow> process_listing sv w1 ys
        | (w1, Some e) \<Rightarrow> (w1, Some e))"
proof (induction xs arbitrary: w)
  case Nil
  then show ?case by simp
next
  case (Cons n ns)
  show ?case
    by (simp add: Cons.IH split: sum.splits prod.splits option.splits)
qed

lemma process_listing_skip_zone:
  "startswith n ''Error/'' \<or> startswith n ''Archive/'' \<Longrightarrow>
     process_listing sv w (n # ns) = process_listing sv w ns"
  by simp

lemma process_listing_not_jsonl:
  "\<not> startswith n ''Error/'' \<Longrightarrow> \<not> startswith n ''Archive/'' \<Longrightarrow> \<not> endswith n ''.jsonl'' \<Longrightarrow>
     process_listing sv w (n # ns) = process_listing sv (move_blob_to_folder w n ''Error'') ns"
  by simp


lemma process_listing_candidate:
  "\<not> startswith n ''Error/'' \<Longrightarrow> \<not> startswith n ''Archive/'' \<Longrightarrow> endswith n ''.jsonl'' \<Longrightarrow>
   table_name_of n = Inr t \<Longrightarrow>
     process_listing sv w (n # ns)
       = (case process_blob_with_error_handling sv w n t of
            (w1, Some e) \<Rightarrow> (w1, Some e)
          | (w1, None) \<Rightarrow> process_listing sv w1 ns)"
  by simp

lemma ingest_aborted:
  assumes "list_blobs (create_folders w) = pre @ n # ns"
    and "process_listing sv (create_folders w) pre = (w1, None)"
    and "process_listing sv w1 (n # ns) = (w2, Some e)"
  shows "ingest_json_to_bigquery sv w = (w2, ErrorResponse e)"
  using assms by (simp add: ingest_json_to_bigquery_def Let_def process_listing_append)

lemma blob_exists_upload_same: "blob_exists (upload_from_string w n c) n"
  by (simp add: blob_exists_def upload_from_string_def update_conv')

lemma blob_exists_upload_other:
  "blob_exists w n \<Longrightarrow> blob_exists (upload_from_string w m c) n"
  by (simp add: blob_exists_def upload_from_string_def update_conv')

lemma create_folders_no_write:
  "blob_exists w ''Archive/'' \<Longrightarrow> blob_exists w ''Error/'' \<Longrightarrow> create_folders w = w"
  by (simp add: create_folders_def)

lemma create_folders_exists:
  "blob_exists (create_folders w) ''Archive/'' \<and> blob_exists (create_folders w) ''Error/''"
  by (simp add: create_folders_def Let_def blob_exists_upload_same blob_exists_upload_other)

lemma distinct_create_folders:
  "distinct (list_blobs w) \<Longrightarrow> distinct (list_blobs (create_folders w))"
  by (simp add: create_folders_def Let_def list_blobs_def upload_from_string_def distinct_update)

lemma count_list_distinct: "distinct xs \<Longrightarrow> x \<in> set xs \<Longrightarrow> count_list xs x = 1"
  by (induction xs) (auto simp: count_list_0_iff)

lemma blob_exists_listed: "blob_exists w n \<longleftrightarrow> n \<in> set (list_blobs w)"
  by (simp add: blob_exists_def list_blobs_def map_of_eq_None_iff)

lemma move_blob_to_folder_other:
  assumes "m \<noteq> n" and "m \<noteq> f @ ''/'' @ n"
  shows "map_of (blobs (move_blob_to_folder w n f)) m = map_of (blobs w) m"
proof (cases "map_of (blobs w) n")
  case None
  then show ?thesis by (simp add: move_blob_to_folder_missing)
next
  case (Some c)
  then show ?thesis using assms by (simp add: move_blob_to_folder_lookup)
qed

lemma startswith_append: "startswith (p @ s) p"
  by (simp add: startswith_def)

lemma not_zone_neq:
  assumes "\<not> startswith m ''Error/''" and "\<not> startswith m ''Archive/''"
  shows "m \<noteq> ''Error'' @ ''/'' @ x" and "m \<noteq> ''Archive'' @ ''/'' @ x"
proof -
  have "startswith (''Error/'' @ x) ''Error/''" by (rule startswith_append)
  with assms(1) have "m \<noteq> ''Error/'' @ x" by auto
  then show "m \<noteq> ''Error'' @ ''/'' @ x" by simp
  have "startswith (''Archive/'' @ x) ''Archive/''" by (rule startswith_append)
  with assms(2) have "m \<noteq> ''Archive/'' @ x" by auto
  then show "m \<noteq> ''Archive'' @ ''/'' @ x" by simp
qed

lemma process_blob_other:
  assumes "m \<noteq> n" and "\<not> startswith m ''Error/''"  and "\<not> startswith m ''Archive/''"
  shows "map_of (blobs (fst (process_blob sv w n t))) m = map_of (blobs w) m"
proof -
  have e: "map_of (blobs (move_blob_to_folder w n ''Error'')) m = map_of (blobs w) m"
    using assms(1) not_zone_neq(1) [OF assms(2,3)] by (rule move_blob_to_folder_other)
  show ?thesis
    using e
    by (auto simp: process_blob_def download_def create_or_append_table_def Let_def
          split: option.splits sum.splits)
qed

lemma process_blob_with_error_handling_other:
  assumes "m \<noteq> n" and "\<not> startswith m ''Error/''"  and "\<not> startswith m ''Archive/''"
  shows "map_of (blobs (fst (process_blob_with_error_handling sv w n t))) m = map_of (blobs w) m"
proof -
  obtain w1 r where p: "process_blob sv w n t = (w1, r)" by (cases "process_blob sv w n t")
  have 1: "map_of (blobs w1) m = map_of (blobs w) m"
    using process_blob_other [OF assms, of sv w t] p by simp
  have e: "map_of (blobs (move_blob_to_folder w1 n ''Error'')) m = map_of (blobs w1) m"
    using assms(1) not_zone_neq(1) [OF assms(2,3)] by (rule move_blob_to_folder_other)
  have a: "map_of (blobs (move_blob_to_folder w1 n ''Archive'')) m = map_of (blobs w1) m"
    using assms(1) not_zone_neq(2) [OF assms(2,3)] by (rule move_blob_to_folder_other)
  show ?thesis
    using p 1 e a by (cases r) (simp_all add: process_blob_with_error_handling_def)
qed

lemma process_listing_other:
  assumes "m \<notin> set xs" and "\<not> startswith m ''Error/''"  and "\<not> startswith m ''Archive/''"
  shows "map_of (blobs (fst (process_listing sv w xs))) m = map_of (blobs w) m"
  using assms(1)
proof (induction xs arbitrary: w)
  case Nil
  then show ?case by simp
next
  case (Cons x xs)
  then have mx: "m \<noteq> x" and IH: "\<And>w. map_of (blobs (fst (process_listing sv w xs))) m = map_of (blobs w) m"
    by auto
  have e: "map_of (blobs (move_blob_to_folder w x ''Error'')) m = map_of (blobs w) m"
    using mx not_zone_neq(1) [OF assms(2,3)] by (rule move_blob_to_folder_other)
  have h: "map_of (blobs (fst (process_blob_with_error_handling sv w x t))) m = map_of (blobs w) m" for t
    using mx assms(2,3) by (rule process_blob_with_error_handling_other)
  show ?case
  proof (cases "startswith x ''Error/'' \<or> startswith x ''Archive/''")
    case True
    then show ?thesis using IH by simp
  next
    case zone: False
    show ?thesis
    proof (cases "endswith x ''.jsonl''")
      case False
      with zone show ?thesis using IH [of "move_blob_to_folder w x ''Error''"] e by simp
    next
      case True
      show ?thesis
      proof (cases "table_name_of x")
        case (Inl err)
        with zone True show ?thesis by simp
      next
        case (Inr t)
        obtain w1 r where p: "process_blob_with_error_handling sv w x t = (w1, r)"
          by (cases "process_blob_with_error_handling sv w x t")
        have w1: "map_of (blobs w1) m = map_of (blobs w) m" using h [of t] p by simp
        show ?thesis
          using zone True Inr p w1 IH [of w1] by (cases r) simp_all
      qed
    qed
  qed
qed

lemma listed_blob_exists:
  "n \<in> set (list_blobs w) \<Longrightarrow> \<exists>c. map_of (blobs w) n = Some c"
  using blob_exists_listed [of w n] by (auto simp: blob_exists_def)

lemma reached_blob_unchanged:
  assumes "distinct (list_blobs w0)" and "list_blobs w0 = pre @ n # ns"
    and "process_listing sv w0 pre = (w1, r)"
    and "\<not> startswith n ''Error/''"  and "\<not> startswith n ''Archive/''"
  shows "map_of (blobs w1) n = map_of (blobs w0) n \<and> map_of (blobs w0) n \<noteq> None"
proof -
  from assms(1,2) have "n \<notin> set pre" by auto
  then have "map_of (blobs (fst (process_listing sv w0 pre))) n = map_of (blobs w0) n"
    using assms(4,5) by (rule process_listing_other)
  then have 1: "map_of (blobs w1) n = map_of (blobs w0) n" using assms(3) by simp
  have "n \<in> set (list_blobs w0)" using assms(2) by simp
  then have "\<exists>c. map_of (blobs w0) n = Some c" by (rule listed_blob_exists)
  with 1 show ?thesis by auto
qed

lemma process_listing_reached:
  "process_listing sv w0 pre = (w1, None) \<Longrightarrow>
     process_listing sv w0 (pre @ rest) = process_listing sv w1 rest"
  by (simp add: process_listing_append)

lemma ingest_json_to_bigquery_listing:
  "ingest_json_to_bigquery sv w
     = (case process_listing sv (create_folders w) (list_blobs (create_folders w)) of
          (w2, None) \<Rightarrow> (w2, Message success_message)
        | (w2, Some e) \<Rightarrow> (w2, ErrorResponse e))"
  by (simp add: ingest_json_to_bigquery_def Let_def)

subsection \<open>Folder creation\<close>

text \<open>
  C9. \<open>create_folders\<close> tests each marker before it writes it. On a bucket that
  already holds \<open>Archive/\<close> and \<open>Error/\<close> it writes nothing, whatever the markers
  contain; a second call changes nothing; and on a bucket whose blob names are
  distinct, the listing after two calls has exactly one \<open>Archive/\<close> and exactly one
  \<open>Error/\<close>. The function has no error result.
\<close>

theorem create_folders_idempotent:
  "create_folders (create_folders w) = create_folders w
   \<and> (blob_exists w ''Archive/'' \<and> blob_exists w ''Error/'' \<longrightarrow> create_folders w = w)
   \<and> (distinct (list_blobs w) \<longrightarrow>
        count_list (list_blobs (create_folders (create_folders w))) ''Archive/'' = 1
        \<and> count_list (list_blobs (create_folders (create_folders w))) ''Error/'' = 1)"
proof (intro conjI impI)
  show idem: "create_folders (create_folders w) = create_folders w"
    using create_folders_exists [of w] by (simp add: create_folders_no_write)
  show "create_folders w = w" if "blob_exists w ''Archive/'' \<and> blob_exists w ''Error/''"
    using that by (simp add: create_folders_no_write)
  show "count_list (list_blobs (create_folders (create_folders w))) ''Archive/'' = 1"
    if "distinct (list_blobs w)"
    unfolding idem using that create_folders_exists [of w]
    by (simp add: count_list_distinct distinct_create_folders blob_exists_listed)
  show "count_list (list_blobs (create_folders (create_folders w))) ''Error/'' = 1"
    if "distinct (list_blobs w)"
    unfolding idem using that create_folders_exists [of w]
    by (simp add: count_list_distinct distinct_create_folders blob_exists_listed)
qed

theorem create_folders_idempotent_witness:
  "blob_exists \<lparr>blobs = [(''Archive/'', ''kept''), (''evt_a.jsonl'', '' ''), (''Error/'', [])], jobs = []\<rparr> ''Archive/''
   \<and> blob_exists \<lparr>blobs = [(''Archive/'', ''kept''), (''evt_a.jsonl'', '' ''), (''Error/'', [])], jobs = []\<rparr> ''Error/''
   \<and> create_folders \<lparr>blobs = [(''Archive/'', ''kept''), (''evt_a.jsonl'', '' ''), (''Error/'', [])], jobs = []\<rparr>
       = \<lparr>blobs = [(''Archive/'', ''kept''), (''evt_a.jsonl'', '' ''), (''Error/'', [])], jobs = []\<rparr>
   \<and> distinct (list_blobs \<lparr>blobs = [(''evt_a.jsonl'', '' '')], jobs = []\<rparr>)
   \<and> count_list (list_blobs (create_folders (create_folders
        \<lparr>blobs = [(''evt_a.jsonl'', '' '')], jobs = []\<rparr>))) ''Archive/'' = 1
   \<and> count_list (list_blobs (create_folders (create_folders
        \<lparr>blobs = [(''evt_a.jsonl'', '' '')], jobs = []\<rparr>))) ''Error/'' = 1"
proof -
  let ?w = "\<lparr>blobs = [(''Archive/'', ''kept''), (''evt_a.jsonl'', '' ''), (''Error/'', [])], jobs = []\<rparr>"
  let ?v = "\<lparr>blobs = [(''evt_a.jsonl'', '' '')], jobs = []\<rparr>"
  have a: "blob_exists ?w ''Archive/''" by (simp add: blob_exists_def)
  have e: "blob_exists ?w ''Error/''" by (simp add: blob_exists_def)
  have d: "distinct (list_blobs ?v)" by (simp add: list_blobs_def)
  from create_folders_idempotent [of ?w] a e have 1: "create_folders ?w = ?w" by blast
  from create_folders_idempotent [of ?v] d
  have 2: "count_list (list_blobs (create_folders (create_folders ?v))) ''Archive/'' = 1
         \<and> count_list (list_blobs (create_folders (create_folders ?v))) ''Error/'' = 1"
    by blast
  from a e 1 d 2 show ?thesis by blast
qed

subsection \<open>Filtering the listing\<close>

text \<open>
  C7, as stated, fails: not every file of the listing is filtered. A text file
  listed after a file whose chain raises (line 153), or after a \<open>.jsonl\<close> file
  without an underscore in its name (line 187), is never looked at: it is still
  under its name when the run ends, and nothing is under its \<open>Error/\<close> name.
\<close>

theorem file_after_abort_is_not_filtered:
  "list_blobs (create_folders aborting_bucket)
     = [''Archive/'', ''Error/'', ''evt_orders.jsonl'', ''notes.txt'']
   \<and> \<not> startswith ''notes.txt'' ''Archive/'' \<and> \<not> startswith ''notes.txt'' ''Error/''
   \<and> \<not> endswith ''notes.txt'' ''.jsonl''
   \<and> snd (ingest_json_to_bigquery accepting aborting_bucket)
       = ErrorResponse (KeyError ''source_metadata'')
   \<and> map_of (blobs (fst (ingest_json_to_bigquery accepting aborting_bucket))) ''notes.txt''
       = Some ''hello''
   \<and> map_of (blobs (fst (ingest_json_to_bigquery accepting aborting_bucket))) ''Error/notes.txt''
       = None
   \<and> list_blobs (create_folders unnamed_bucket)
       = [''Archive/'', ''Error/'', ''orders.jsonl'', ''readme.txt'']
   \<and> \<not> endswith ''readme.txt'' ''.jsonl''
   \<and> snd (ingest_json_to_bigquery accepting unnamed_bucket) = ErrorResponse IndexError
   \<and> map_of (blobs (fst (ingest_json_to_bigquery accepting unnamed_bucket))) ''readme.txt''
       = Some ''hello''
   \<and> map_of (blobs (fst (ingest_json_to_bigquery accepting unnamed_bucket))) ''Error/readme.txt''
       = None"
  by code_simp

text \<open>
  C7, amended. In a bucket whose blob names are distinct, take a name of the
  listing that the loop reaches: the loop over the names before it has ended
  without an exception. If the name starts with \<open>Archive/\<close> or \<open>Error/\<close>, the
  run goes on with the names after it from the very state it was in: nothing
  is parsed, loaded or moved. If it has neither prefix and does not end in
  \<open>.jsonl\<close>, the blob exists and is handed to \<open>move_blob_to_folder\<close> with
  \<open>Error\<close> and nothing else: no load job is submitted, the content the blob had
  when the run started is under its \<open>Error/\<close> name, nothing is under its old
  name, and the run goes on with the names after it.
\<close>

theorem reached_file_is_filtered:
  assumes "distinct (list_blobs w)"
    and "list_blobs (create_folders w) = pre @ n # ns"
    and "process_listing sv (create_folders w) pre = (w1, None)"
  shows "(startswith n ''Archive/'' \<or> startswith n ''Error/'' \<longrightarrow>
            ingest_json_to_bigquery sv w
              = (case process_listing sv w1 ns of
                   (w2, None) \<Rightarrow> (w2, Message success_message)
                 | (w2, Some e) \<Rightarrow> (w2, ErrorResponse e)))
         \<and> (\<not> startswith n ''Archive/'' \<and> \<not> startswith n ''Error/'' \<and> \<not> endswith n ''.jsonl'' \<longrightarrow>
              ingest_json_to_bigquery sv w
                = (case process_listing sv (move_blob_to_folder w1 n ''Error'') ns of
                     (w2, None) \<Rightarrow> (w2, Message success_message)
                   | (w2, Some e) \<Rightarrow> (w2, ErrorResponse e))
              \<and> jobs (move_blob_to_folder w1 n ''Error'') = jobs w1
              \<and> map_of (blobs (create_folders w)) n \<noteq> None
              \<and> map_of (blobs (move_blob_to_folder w1 n ''Error'')) (''Error/'' @ n)
                  = map_of (blobs (create_folders w)) n
              \<and> map_of (blobs (move_blob_to_folder w1 n ''Error'')) n = None)"
proof (intro conjI impI)
  let ?w0 = "create_folders w"
  have whole: "process_listing sv ?w0 (list_blobs ?w0) = process_listing sv w1 (n # ns)"
    unfolding assms(2) using assms(3) by (rule process_listing_reached)
  {
    assume "startswith n ''Archive/'' \<or> startswith n ''Error/''"
    then have "process_listing sv w1 (n # ns) = process_listing sv w1 ns" by auto
    with whole show "ingest_json_to_bigquery sv w
              = (case process_listing sv w1 ns of
                   (w2, None) \<Rightarrow> (w2, Message success_message)
                 | (w2, Some e) \<Rightarrow> (w2, ErrorResponse e))"
      by (simp only: ingest_json_to_bigquery_listing)
  }
  {
    assume a: "\<not> startswith n ''Archive/'' \<and> \<not> startswith n ''Error/'' \<and> \<not> endswith n ''.jsonl''"
    then have "process_listing sv w1 (n # ns)
                 = process_listing sv (move_blob_to_folder w1 n ''Error'') ns"
      by simp
    with whole show "ingest_json_to_bigquery sv w
                = (case process_listing sv (move_blob_to_folder w1 n ''Error'') ns of
                     (w2, None) \<Rightarrow> (w2, Message success_message)
                   | (w2, Some e) \<Rightarrow> (w2, ErrorResponse e))"
      by (simp only: ingest_json_to_bigquery_listing)
    show "jobs (move_blob_to_folder w1 n ''Error'') = jobs w1"
      by (rule jobs_move_blob_to_folder)
    have d: "distinct (list_blobs ?w0)"
      using assms(1) by (rule distinct_create_folders)
    from a have ne: "\<not> startswith n ''Error/''" and na: "\<not> startswith n ''Archive/''" by auto
    from reached_blob_unchanged [OF d assms(2,3) ne na]
    have same: "map_of (blobs w1) n = map_of (blobs ?w0) n"
      and ex: "map_of (blobs ?w0) n \<noteq> None" by auto
    show "map_of (blobs ?w0) n \<noteq> None" by (rule ex)
    from ex same obtain c where c: "map_of (blobs w1) n = Some c"
      and c0: "map_of (blobs ?w0) n = Some c" by auto
    show "map_of (blobs (move_blob_to_folder w1 n ''Error'')) (''Error/'' @ n)
            = map_of (blobs ?w0) n"
      using move_blob_to_folder_lookup [OF c, of "''Error''" "''Error/'' @ n"]
        folder_name_neq [of "''Error''" n] c0 by simp
    show "map_of (blobs (move_blob_to_folder w1 n ''Error'')) n = None"
      using move_blob_to_folder_lookup [OF c, of "''Error''" n] by simp
  }
qed

theorem reached_file_is_filtered_witness:
  "distinct (list_blobs filter_bucket)
   \<and> list_blobs (create_folders filter_bucket)
       = [''Archive/''] @ ''Archive/old.jsonl'' # [''Error/'', ''evt_a.jsonl'', ''notes.txt'']
   \<and> process_listing accepting (create_folders filter_bucket) [''Archive/'']
       = (filter_bucket, None)
   \<and> startswith ''Archive/old.jsonl'' ''Archive/''
   \<and> ingest_json_to_bigquery accepting filter_bucket
       = (case process_listing accepting filter_bucket [''Error/'', ''evt_a.jsonl'', ''notes.txt''] of
            (w2, None) \<Rightarrow> (w2, Message success_message)
          | (w2, Some e) \<Rightarrow> (w2, ErrorResponse e))
   \<and> list_blobs (create_folders filter_bucket)
       = [''Archive/'', ''Archive/old.jsonl'', ''Error/'', ''evt_a.jsonl''] @ ''notes.txt'' # []
   \<and> snd (process_listing accepting (create_folders filter_bucket)
             [''Archive/'', ''Archive/old.jsonl'', ''Error/'', ''evt_a.jsonl'']) = None
   \<and> \<not> startswith ''notes.txt'' ''Archive/'' \<and> \<not> startswith ''notes.txt'' ''Error/''
   \<and> \<not> endswith ''notes.txt'' ''.jsonl''
   \<and> snd (ingest_json_to_bigquery accepting filter_bucket) = Message success_message
   \<and> map_of (blobs (fst (ingest_json_to_bigquery accepting filter_bucket))) ''Error/notes.txt''
       = Some ''hello''
   \<and> map_of (blobs (fst (ingest_json_to_bigquery accepting filter_bucket))) ''notes.txt'' = None
   \<and> map_of (blobs (fst (ingest_json_to_bigquery accepting filter_bucket))) ''Archive/old.jsonl''
       = Some insert_line"
proof -
  let ?w0 = "create_folders filter_bucket"
  let ?pre = "[''Archive/'', ''Archive/old.jsonl'', ''Error/'', ''evt_a.jsonl'']"
  let ?w1 = "fst (process_listing accepting ?w0 ?pre)"
  have d: "distinct (list_blobs filter_bucket)" by code_simp
  have l1: "list_blobs ?w0
      = [''Archive/''] @ ''Archive/old.jsonl'' # [''Error/'', ''evt_a.jsonl'', ''notes.txt'']"
    by code_simp
  have p1: "process_listing accepting ?w0 [''Archive/''] = (filter_bucket, None)" by code_simp
  have z: "startswith ''Archive/old.jsonl'' ''Archive/''" by code_simp
  have zz: "startswith ''Archive/old.jsonl'' ''Archive/'' \<or> startswith ''Archive/old.jsonl'' ''Error/''"
    using z by (rule disjI1)
  from reached_file_is_filtered [OF d l1 p1, THEN conjunct1, THEN mp, OF zz]
  have r1: "ingest_json_to_bigquery accepting filter_bucket
       = (case process_listing accepting filter_bucket [''Error/'', ''evt_a.jsonl'', ''notes.txt''] of
            (w2, None) \<Rightarrow> (w2, Message success_message)
          | (w2, Some e) \<Rightarrow> (w2, ErrorResponse e))" .
  have l2: "list_blobs ?w0 = ?pre @ ''notes.txt'' # []" by code_simp
  have s2: "snd (process_listing accepting ?w0 ?pre) = None" by code_simp
  have "process_listing accepting ?w0 ?pre = (?w1, snd (process_listing accepting ?w0 ?pre))"
    by (rule prod.collapse [symmetric])
  then have p2: "process_listing accepting ?w0 ?pre = (?w1, None)"
    by (simp only: s2)
  have a: "\<not> startswith ''notes.txt'' ''Archive/''" by code_simp
  have e: "\<not> startswith ''notes.txt'' ''Error/''" by code_simp
  have x: "\<not> endswith ''notes.txt'' ''.jsonl''" by code_simp
  have aex: "\<not> startswith ''notes.txt'' ''Archive/'' \<and> \<not> startswith ''notes.txt'' ''Error/''
      \<and> \<not> endswith ''notes.txt'' ''.jsonl''"
    using a e x by (intro conjI)
  note t = reached_file_is_filtered [OF d l2 p2, THEN conjunct2, THEN mp, OF aex]
  from t have i: "ingest_json_to_bigquery accepting filter_bucket
      = (case process_listing accepting (move_blob_to_folder ?w1 ''notes.txt'' ''Error'') [] of
           (w2, None) \<Rightarrow> (w2, Message success_message)
         | (w2, Some e) \<Rightarrow> (w2, ErrorResponse e))"
    by (rule conjunct1)
  then have i': "ingest_json_to_bigquery accepting filter_bucket
      = (move_blob_to_folder ?w1 ''notes.txt'' ''Error'', Message success_message)"
    by (simp only: process_listing.simps prod.case option.case)
  from t have "map_of (blobs (move_blob_to_folder ?w1 ''notes.txt'' ''Error''))
      (''Error/'' @ ''notes.txt'') = map_of (blobs ?w0) ''notes.txt''"
    by (elim conjE)
  also have "map_of (blobs ?w0) ''notes.txt'' = Some ''hello''" by code_simp
  finally have m1: "map_of (blobs (move_blob_to_folder ?w1 ''notes.txt'' ''Error''))
      ''Error/notes.txt'' = Some ''hello''" by (simp only: append_Cons append_Nil)
  from t have m2: "map_of (blobs (move_blob_to_folder ?w1 ''notes.txt'' ''Error''))
      ''notes.txt'' = None"
    by (elim conjE)
  have m3: "map_of (blobs (fst (ingest_json_to_bigquery accepting filter_bucket)))
      ''Archive/old.jsonl'' = Some insert_line"
    by code_simp
  have c1: "snd (ingest_json_to_bigquery accepting filter_bucket) = Message success_message"
    unfolding i' by (simp only: snd_conv)
  have c2: "map_of (blobs (fst (ingest_json_to_bigquery accepting filter_bucket)))
      ''Error/notes.txt'' = Some ''hello''"
    unfolding i' fst_conv by (rule m1)
  have c3: "map_of (blobs (fst (ingest_json_to_bigquery accepting filter_bucket)))
      ''notes.txt'' = None"
    unfolding i' fst_conv by (rule m2)
  show ?thesis by (intro conjI d l1 p1 z r1 l2 s2 a e x c1 c2 c3 m3)
qed

subsection \<open>File names without an underscore\<close>



subsection \<open>Schema of a frame\<close>

lemma set_add_columns: "set (add_columns cols ks) = set cols \<union> set ks"
proof -
  have "set (foldl (\<lambda>cs k. if k \<in> set cs then cs else cs @ [k]) cols ks) = set cols \<union> set ks"
    by (induction ks arbitrary: cols) auto
  then show ?thesis by (simp add: add_columns_def)
qed

lemma distinct_add_columns: "distinct cols \<Longrightarrow> distinct (add_columns cols ks)"
proof -
  have "distinct cols \<Longrightarrow> distinct (foldl (\<lambda>cs k. if k \<in> set cs then cs else cs @ [k]) cols ks)"
    by (induction ks arbitrary: cols) auto
  then show "distinct cols \<Longrightarrow> distinct (add_columns cols ks)" by (simp add: add_columns_def)
qed

lemma set_foldl_add_columns:
  "set (foldl add_columns cols kss) = set cols \<union> (\<Union>ks \<in> set kss. set ks)"
  by (induction kss arbitrary: cols) (auto simp: set_add_columns)

lemma distinct_foldl_add_columns:
  "distinct cols \<Longrightarrow> distinct (foldl add_columns cols kss)"
  by (induction kss arbitrary: cols) (auto simp: distinct_add_columns)

lemma columns_frame_of_records:
  "set (columns (frame_of_records records)) = (\<Union>r \<in> set records. fst ` set r)"
  by (simp add: frame_of_records_def DataFrame_def empty_DataFrame_def set_foldl_add_columns)

lemma distinct_columns_frame_of_records: "distinct (columns (frame_of_records records))"
  by (simp add: frame_of_records_def DataFrame_def empty_DataFrame_def distinct_foldl_add_columns)

lemma load_json_to_dataframe_frame:
  "load_json_to_dataframe ld content = Inr df \<Longrightarrow>
     \<exists>records. load_lines ld [] (splitlines content) = Inr records \<and> df = frame_of_records records"
  by (auto simp: load_json_to_dataframe_def split: sum.splits)

text \<open>
  C8. Whatever the records, the schema built by \<open>create_or_append_table\<close> for the
  frame of these records names exactly the keys that occur in some record, each
  once, and every field has type \<open>STRING\<close>; this schema is the one of the load
  job that is submitted.
\<close>

theorem schema_is_union_of_keys:
  "field_name ` set (schema_of (frame_of_records records)) = (\<Union>r \<in> set records. fst ` set r)
   \<and> distinct (map field_name (schema_of (frame_of_records records)))
   \<and> map field_type (schema_of (frame_of_records records))
       = replicate (length (columns (frame_of_records records))) ''STRING''
   \<and> jobs (fst (create_or_append_table sv w table_name (frame_of_records records)))
       = jobs w @ [\<lparr>job_table = table_name,
                    job_schema = schema_of (frame_of_records records),
                    job_frame = frame_of_records records\<rparr>]"
proof (intro conjI)
  have names: "map field_name (schema_of df) = columns df" for df
    by (simp add: schema_of_def comp_def)
  have "field_name ` set (schema_of (frame_of_records records))
          = set (map field_name (schema_of (frame_of_records records)))"
    by simp
  also have "\<dots> = (\<Union>r \<in> set records. fst ` set r)"
    unfolding names by (rule columns_frame_of_records)
  finally show "field_name ` set (schema_of (frame_of_records records))
                  = (\<Union>r \<in> set records. fst ` set r)" .
  show "distinct (map field_name (schema_of (frame_of_records records)))"
    unfolding names by (rule distinct_columns_frame_of_records)
  show "map field_type (schema_of (frame_of_records records))
          = replicate (length (columns (frame_of_records records))) ''STRING''"
    by (simp add: schema_of_def comp_def map_replicate_const)
  show "jobs (fst (create_or_append_table sv w table_name (frame_of_records records)))
          = jobs w @ [\<lparr>job_table = table_name,
                       job_schema = schema_of (frame_of_records records),
                       job_frame = frame_of_records records\<rparr>]"
    by (simp add: create_or_append_table_def Let_def)
qed

theorem schema_is_union_of_keys_witness:
  "field_name ` set (schema_of (frame_of_records
      [ [(''a'', JNum ''1''), (''b'', JNum ''2'')], [(''a'', JNum ''3''), (''c'', JNum ''4'')]]))
     = {''a'', ''b'', ''c''}
   \<and> schema_of (frame_of_records
      [ [(''a'', JNum ''1''), (''b'', JNum ''2'')], [(''a'', JNum ''3''), (''c'', JNum ''4'')]])
     = [SchemaField ''a'' ''STRING'', SchemaField ''b'' ''STRING'', SchemaField ''c'' ''STRING'']"
proof -
  let ?rs = "[ [(''a'', JNum ''1''), (''b'', JNum ''2'')], [(''a'', JNum ''3''), (''c'', JNum ''4'')]]"
  have u: "(\<Union>r \<in> set ?rs. fst ` set r) = {''a'', ''b'', ''c''}" by auto
  from schema_is_union_of_keys [of ?rs accepting three_files "''t''"]
  have "field_name ` set (schema_of (frame_of_records ?rs)) = (\<Union>r \<in> set ?rs. fst ` set r)"
    by (rule conjunct1)
  then have 1: "field_name ` set (schema_of (frame_of_records ?rs)) = {''a'', ''b'', ''c''}"
    unfolding u .
  have 2: "schema_of (frame_of_records ?rs)
     = [SchemaField ''a'' ''STRING'', SchemaField ''b'' ''STRING'', SchemaField ''c'' ''STRING'']"
    by code_simp
  from 1 2 show ?thesis by (rule conjI)
qed

subsection \<open>Records from lines\<close>

lemma map_of_rev_distinct: "distinct (map fst xs) \<Longrightarrow> map_of (rev xs) = map_of xs"
proof (induction xs)
  case Nil
  then show ?case by simp
next
  case (Cons x xs)
  then have "fst x \<notin> fst ` set xs" and IH: "map_of (rev xs) = map_of xs" by auto
  then have "map_of xs (fst x) = None" by (simp add: map_of_eq_None_iff)
  then show ?case
    by (cases x) (auto simp: map_of_append IH map_add_def fun_eq_iff split: option.splits)
qed

lemma map_of_fold_update:
  "map_of (fold (\<lambda>(k, v). AList.update k v) items d) = map_of d ++ map_of (rev items)"
proof (induction items arbitrary: d)
  case Nil
  then show ?case by simp
next
  case (Cons x xs)
  obtain k v where x: "x = (k, v)" by (cases x)
  have "map_of (fold (\<lambda>(k, v). AList.update k v) (x # xs) d)
          = map_of (AList.update k v d) ++ map_of (rev xs)"
    by (simp add: x Cons.IH)
  also have "\<dots> = (map_of d ++ [k \<mapsto> v]) ++ map_of (rev xs)"
    by (simp add: update_conv')
  also have "\<dots> = map_of d ++ map_of (rev (x # xs))"
    by (simp add: x map_of_append)
  finally show ?case .
qed

lemma map_of_dict_merge:
  "distinct (map fst items) \<Longrightarrow> map_of (dict_merge d items) = map_of d ++ map_of items"
  by (simp add: dict_merge_def map_of_fold_update map_of_rev_distinct)

lemma make_record_complete:
  assumes "map_of kvs ''source_metadata'' = Some (JObj md)"
    and "map_of md ''change_type'' = Some ct"
    and "map_of kvs ''source_timestamp'' = Some ts"
    and "map_of kvs ''payload'' = Some (JObj pl)"
  shows "make_record (JObj kvs)
           = Inr (dict_merge [(''change_type'', ct), (''source_timestamp'', ts)] pl)"
  using assms by (simp add: make_record_def)

lemma event_fields_Some:
  "event_fields j = Some (ct, ts, pl) \<Longrightarrow>
     \<exists>kvs md. j = JObj kvs \<and> map_of kvs ''source_metadata'' = Some (JObj md)
       \<and> map_of md ''change_type'' = Some ct \<and> map_of kvs ''source_timestamp'' = Some ts
       \<and> map_of kvs ''payload'' = Some (JObj pl)"
  by (cases j) (auto split: option.splits json.splits)

lemma load_lines_step_skipped:
  assumes "skipped_line ld line"
  shows "load_lines ld records (line # ls) = load_lines ld records ls"
proof (cases "is_blank line")
  case True
  then show ?thesis by simp
next
  case False
  with assms have c: "(case ld line of None \<Rightarrow> True
      | Some (JObj kvs) \<Rightarrow> ''payload'' \<notin> set (map fst kvs) | Some _ \<Rightarrow> False)"
    by (simp add: skipped_line_def)
  show ?thesis
  proof (cases "ld line")
    case None
    with False show ?thesis by simp
  next
    case (Some j)
    with c obtain kvs where j: "j = JObj kvs" and np: "''payload'' \<notin> fst ` set kvs"
      by (cases j) auto
    from np have "map_of kvs ''payload'' = None" by (simp add: map_of_eq_None_iff)
    with False Some j show ?thesis by simp
  qed
qed

lemma load_lines_step_complete:
  assumes "line_record ld line = Some r"
  shows "load_lines ld records (line # ls) = load_lines ld (records @ [r]) ls"
proof -
  from assms have nb: "\<not> is_blank line"
    by (auto simp: line_record_def split: if_splits)
  from assms nb obtain j ct ts pl where j: "ld line = Some j"
    and ef: "event_fields j = Some (ct, ts, pl)"
    and r: "r = dict_merge [(''change_type'', ct), (''source_timestamp'', ts)] pl"
    by (auto simp: line_record_def split: option.splits)
  from event_fields_Some [OF ef] obtain kvs md where jo: "j = JObj kvs"
    and f: "map_of kvs ''source_metadata'' = Some (JObj md)" "map_of md ''change_type'' = Some ct"
       "map_of kvs ''source_timestamp'' = Some ts" "map_of kvs ''payload'' = Some (JObj pl)"
    by blast
  have mr: "make_record (JObj kvs) = Inr r"
    unfolding r using f by (rule make_record_complete)
  show ?thesis using nb j jo f(4) mr by simp
qed

lemma skipped_not_complete: "skipped_line ld line \<Longrightarrow> line_record ld line = None"
proof -
  assume s: "skipped_line ld line"
  show ?thesis
  proof (cases "is_blank line")
    case True
    then show ?thesis by (simp add: line_record_def)
  next
    case False
    show ?thesis
    proof (cases "ld line")
      case None
      with False show ?thesis by (simp add: line_record_def)
    next
      case (Some j)
      with s False obtain kvs where j: "j = JObj kvs" and np: "''payload'' \<notin> fst ` set kvs"
        by (cases j) (auto simp: skipped_line_def)
      from np have "map_of kvs ''payload'' = None" by (simp add: map_of_eq_None_iff)
      then have "event_fields j = None" by (simp add: j split: option.splits json.splits)
      with False Some show ?thesis by (simp add: line_record_def)
    qed
  qed
qed

lemma load_lines_tolerant:
  assumes "\<forall>line \<in> set ls. skipped_line ld line \<or> complete_line ld line"
  shows "load_lines ld records ls = Inr (records @ List.map_filter (line_record ld) ls)"
  using assms
proof (induction ls arbitrary: records)
  case Nil
  then show ?case by (simp add: List.map_filter_simps)
next
  case (Cons line ls)
  then have rest: "\<forall>l \<in> set ls. skipped_line ld l \<or> complete_line ld l" by simp
  show ?case
  proof (cases "line_record ld line")
    case None
    with Cons.prems have "skipped_line ld line" by (simp add: complete_line_def)
    then have "load_lines ld records (line # ls) = load_lines ld records ls"
      by (rule load_lines_step_skipped)
    then show ?thesis using None Cons.IH [OF rest] by (simp add: List.map_filter_simps)
  next
    case (Some r)
    then have "load_lines ld records (line # ls) = load_lines ld (records @ [r]) ls"
      by (rule load_lines_step_complete)
    then show ?thesis using Some Cons.IH [OF rest] by (simp add: List.map_filter_simps)
  qed
qed

lemma length_map_filter:
  "length (List.map_filter f xs) = length (filter (\<lambda>x. f x \<noteq> None) xs)"
  by (simp add: List.map_filter_def)

text \<open>
  C5, as stated, fails: a JSON object with a \<open>payload\<close> key need not give a
  record. Without \<open>source_metadata\<close>, without \<open>change_type\<close> in it or without
  \<open>source_timestamp\<close> the dict display raises \<open>KeyError\<close>, and with a payload
  that is not an object it raises \<open>TypeError\<close>; in each case the line has the
  key, passes the test of line 59 and produces no record.
\<close>

theorem payload_key_alone_gives_no_record:
  "example_loads orphan_line = Some orphan_json \<and> payload_in orphan_json = Inr True
   \<and> load_lines example_loads [] [orphan_line] = Inl (KeyError ''source_metadata'')
   \<and> example_loads untyped_line = Some untyped_json \<and> payload_in untyped_json = Inr True
   \<and> load_lines example_loads [] [untyped_line] = Inl (KeyError ''change_type'')
   \<and> example_loads untimed_line = Some untimed_json \<and> payload_in untimed_json = Inr True
   \<and> load_lines example_loads [] [untimed_line] = Inl (KeyError ''source_timestamp'')
   \<and> example_loads scalar_payload_line = Some scalar_payload_json
   \<and> payload_in scalar_payload_json = Inr True
   \<and> load_lines example_loads [] [scalar_payload_line] = Inl TypeError"
  by code_simp

text \<open>
  C5, amended. A non-blank line that decodes to an object with
  \<open>source_metadata.change_type\<close>, with \<open>source_timestamp\<close> and with an object
  under \<open>payload\<close> (its keys distinct, as the keys of a dict are) adds exactly
  one record. As a map the record is \<open>change_type\<close> and \<open>source_timestamp\<close> bound
  to the two extracted values, overridden by the payload: every key of the
  payload has the payload's value in the record, also \<open>change_type\<close> and
  \<open>source_timestamp\<close>.
\<close>

theorem record_of_qualifying_line:
  assumes "\<not> is_blank line" and "ld line = Some (JObj kvs)"
    and "map_of kvs ''payload'' = Some (JObj pl)" and "distinct (map fst pl)"
    and "map_of kvs ''source_metadata'' = Some (JObj md)"
    and "map_of md ''change_type'' = Some ct"
    and "map_of kvs ''source_timestamp'' = Some ts"
  shows "\<exists>r. load_lines ld records [line] = Inr (records @ [r])
           \<and> map_of r = [''change_type'' \<mapsto> ct, ''source_timestamp'' \<mapsto> ts] ++ map_of pl
           \<and> (\<forall>k v. map_of pl k = Some v \<longrightarrow> map_of r k = Some v)"
proof -
  let ?r = "dict_merge [(''change_type'', ct), (''source_timestamp'', ts)] pl"
  have ef: "event_fields (JObj kvs) = Some (ct, ts, pl)"
    using assms(3,5,6,7) by simp
  have "line_record ld line = Some ?r"
    using assms(1,2) ef by (simp add: line_record_def)
  then have "load_lines ld records (line # []) = load_lines ld (records @ [?r]) []"
    by (rule load_lines_step_complete)
  then have 1: "load_lines ld records [line] = Inr (records @ [?r])" by simp
  have "map_of ?r = map_of [(''change_type'', ct), (''source_timestamp'', ts)] ++ map_of pl"
    using assms(4) by (rule map_of_dict_merge)
  also have "map_of [(''change_type'', ct), (''source_timestamp'', ts)]
               = [''change_type'' \<mapsto> ct, ''source_timestamp'' \<mapsto> ts]"
    by (simp add: fun_eq_iff)
  finally have 2: "map_of ?r = [''change_type'' \<mapsto> ct, ''source_timestamp'' \<mapsto> ts] ++ map_of pl" .
  have 3: "\<forall>k v. map_of pl k = Some v \<longrightarrow> map_of ?r k = Some v"
    unfolding 2 by (simp add: map_add_Some_iff)
  from 1 2 3 show ?thesis by blast
qed

theorem record_of_qualifying_line_witness:
  "\<not> is_blank override_line
   \<and> example_loads override_line = Some (JObj
        [(''source_metadata'', JObj [(''change_type'', JStr ''DELETE'')]),
         (''source_timestamp'', JStr ''t2''),
         (''payload'', JObj [(''id'', JStr ''2''), (''change_type'', JStr ''X'')])])
   \<and> distinct (map fst [(''id'', JStr ''2''), (''change_type'', JStr ''X'')])
   \<and> (\<exists>r. load_lines example_loads [] [override_line] = Inr ([] @ [r])
          \<and> map_of r = [''change_type'' \<mapsto> JStr ''DELETE'', ''source_timestamp'' \<mapsto> JStr ''t2'']
                         ++ map_of [(''id'', JStr ''2''), (''change_type'', JStr ''X'')]
          \<and> map_of r ''change_type'' = Some (JStr ''X''))"
proof -
  let ?pl = "[(''id'', JStr ''2''), (''change_type'', JStr ''X'')]"
  let ?md = "[(''change_type'', JStr ''DELETE'')]"
  let ?kvs = "[(''source_metadata'', JObj ?md), (''source_timestamp'', JStr ''t2''),
               (''payload'', JObj ?pl)]"
  have h1: "\<not> is_blank override_line" by code_simp
  have h2: "example_loads override_line = Some (JObj ?kvs)" by code_simp
  have h3: "map_of ?kvs ''payload'' = Some (JObj ?pl)" by simp
  have h4: "distinct (map fst ?pl)" by simp
  have h5: "map_of ?kvs ''source_metadata'' = Some (JObj ?md)" by simp
  have h6: "map_of ?md ''change_type'' = Some (JStr ''DELETE'')" by simp
  have h7: "map_of ?kvs ''source_timestamp'' = Some (JStr ''t2'')" by simp
  from record_of_qualifying_line [where line = override_line and ld = example_loads
      and kvs = ?kvs and pl = ?pl and md = ?md and records = "[]", OF h1 h2 h3 h4 h5 h6 h7]
  obtain r where r: "load_lines example_loads [] [override_line] = Inr ([] @ [r])"
    "map_of r = [''change_type'' \<mapsto> JStr ''DELETE'', ''source_timestamp'' \<mapsto> JStr ''t2'']
                  ++ map_of ?pl"
    "\<forall>k v. map_of ?pl k = Some v \<longrightarrow> map_of r k = Some v"
    by blast
  have "map_of ?pl ''change_type'' = Some (JStr ''X'')" by simp
  with r(3) have "map_of r ''change_type'' = Some (JStr ''X'')" by blast
  with r(1,2) h1 h2 h4 show ?thesis by blast
qed

text \<open>
  C4, as stated, fails: a file of two lines that are both JSON objects with a
  \<open>payload\<close> key gives no batch when the second has no \<open>source_metadata\<close>; the
  \<open>KeyError\<close> leaves \<open>load_json_to_dataframe\<close>.
\<close>

theorem payload_without_metadata_fails_file:
  "example_loads insert_line = Some insert_json \<and> payload_in insert_json = Inr True
   \<and> example_loads orphan_line = Some orphan_json \<and> payload_in orphan_json = Inr True
   \<and> splitlines (insert_line @ [CHR 0x0A] @ orphan_line) = [insert_line, orphan_line]
   \<and> load_json_to_dataframe example_loads (insert_line @ [CHR 0x0A] @ orphan_line)
       = Inl (KeyError ''source_metadata'')"
  by code_simp

text \<open>
  C4, amended. When every line of the content is either skipped (blank, not
  JSON, or an object without \<open>payload\<close>) or a complete change event, the
  function returns a frame whose rows are the records of the complete lines, in
  line order; their number is the number of complete lines.
\<close>

theorem complete_lines_give_records:
  assumes "\<forall>line \<in> set (splitlines content). skipped_line ld line \<or> complete_line ld line"
  shows "\<exists>df. load_json_to_dataframe ld content = Inr df
           \<and> rows df = List.map_filter (line_record ld) (splitlines content)
           \<and> length (rows df) = length (filter (complete_line ld) (splitlines content))"
proof -
  let ?rs = "List.map_filter (line_record ld) (splitlines content)"
  have "load_lines ld [] (splitlines content) = Inr ([] @ ?rs)"
    using assms by (rule load_lines_tolerant)
  then have 1: "load_json_to_dataframe ld content = Inr (frame_of_records ?rs)"
    by (simp add: load_json_to_dataframe_def)
  have 2: "rows (frame_of_records ?rs) = ?rs"
    by (simp add: frame_of_records_def DataFrame_def empty_DataFrame_def)
  have 3: "length ?rs = length (filter (complete_line ld) (splitlines content))"
    unfolding length_map_filter complete_line_def ..
  from 1 2 3 show ?thesis by simp
qed

theorem complete_lines_give_records_witness:
  "list_all (\<lambda>line. skipped_line example_loads line \<or> complete_line example_loads line)
     (splitlines mixed_file)
   \<and> splitlines mixed_file = [insert_line, [], broken_line, heartbeat_line, override_line]
   \<and> (\<exists>df. load_json_to_dataframe example_loads mixed_file = Inr df
          \<and> rows df = [ [(''change_type'', JStr ''INSERT''), (''source_timestamp'', JStr ''t1''),
                         (''id'', JStr ''1'')],
                        [(''change_type'', JStr ''X''), (''source_timestamp'', JStr ''t2''),
                         (''id'', JStr ''2'')]]
          \<and> length (rows df) = 2)"
proof -
  have h: "\<forall>line \<in> set (splitlines mixed_file).
             skipped_line example_loads line \<or> complete_line example_loads line"
    by code_simp
  have s: "splitlines mixed_file = [insert_line, [], broken_line, heartbeat_line, override_line]"
    by code_simp
  have m: "List.map_filter (line_record example_loads) (splitlines mixed_file)
             = [ [(''change_type'', JStr ''INSERT''), (''source_timestamp'', JStr ''t1''),
                 (''id'', JStr ''1'')],
                [(''change_type'', JStr ''X''), (''source_timestamp'', JStr ''t2''),
                 (''id'', JStr ''2'')]]"
    by code_simp
  have n: "length (filter (complete_line example_loads) (splitlines mixed_file)) = 2"
    by code_simp
  from complete_lines_give_records [OF h]
  obtain df where "load_json_to_dataframe example_loads mixed_file = Inr df"
    "rows df = List.map_filter (line_record example_loads) (splitlines mixed_file)"
    "length (rows df) = length (filter (complete_line example_loads) (splitlines mixed_file))"
    by blast
  moreover have "list_all (\<lambda>line. skipped_line example_loads line \<or> complete_line example_loads line)
     (splitlines mixed_file)"
    using h by (simp add: list_all_iff)
  ultimately show ?thesis using m n s by auto
qed

text \<open>
  C2. The handler of the loop body catches \<open>JSONDecodeError\<close> only. A line with
  a payload and no \<open>source_metadata\<close>, or with a \<open>source_metadata\<close> without
  \<open>change_type\<close>, raises \<open>KeyError\<close> out of \<open>load_json_to_dataframe\<close>: the
  complete line after it is not transformed, where the same complete line after
  a line that is not JSON is. The whole run then answers with the error.
\<close>

theorem missing_change_type_escapes_line_handler:
  "example_loads orphan_line = Some orphan_json
   \<and> splitlines orphan_first_file = [orphan_line, insert_line]
   \<and> complete_line example_loads insert_line
   \<and> load_json_to_dataframe example_loads orphan_first_file = Inl (KeyError ''source_metadata'')
   \<and> load_json_to_dataframe example_loads (untyped_line @ [CHR 0x0A] @ insert_line)
       = Inl (KeyError ''change_type'')
   \<and> load_json_to_dataframe example_loads (broken_line @ [CHR 0x0A] @ insert_line)
       = Inr \<lparr>columns = [''change_type'', ''source_timestamp'', ''id''],
              rows = [ [(''change_type'', JStr ''INSERT''), (''source_timestamp'', JStr ''t1''),
                       (''id'', JStr ''1'')]]\<rparr>
   \<and> snd (ingest_json_to_bigquery accepting
        \<lparr>blobs = [(''evt_orders.jsonl'', orphan_first_file), (''evt_next.jsonl'', insert_line)],
         jobs = []\<rparr>) = ErrorResponse (KeyError ''source_metadata'')"
  by code_simp

subsection \<open>A failure while a file is processed\<close>

lemma process_blob_error_blobs:
  "process_blob sv w n t = (w', Some e) \<Longrightarrow> blobs w' = blobs w"
  by (auto simp: process_blob_def download_def create_or_append_table_def Let_def
        split: option.splits if_splits sum.splits)

lemma process_blob_with_error_handling_raises:
  "process_blob sv w n t = (w', Some e) \<Longrightarrow>
     process_blob_with_error_handling sv w n t = (move_blob_to_folder w' n ''Error'', Some e)"
  by (simp add: process_blob_with_error_handling_def)

text \<open>
  C1, as stated, fails: with three complete files and a warehouse that fails
  the load of the second, the first is archived and the second goes to
  \<open>Error/\<close>, but the third stays in the working zone with no load job, and the
  response is the error, not the success message.
\<close>

theorem load_failure_stops_later_files:
  "complete_line example_loads insert_line
   \<and> table_name_of ''evt_a.jsonl'' = Inr ''a'' \<and> table_name_of ''evt_b.jsonl'' = Inr ''b''
   \<and> table_name_of ''evt_c.jsonl'' = Inr ''c''
   \<and> list_blobs (create_folders abc_files)
       = [''evt_a.jsonl'', ''evt_b.jsonl'', ''evt_c.jsonl'', ''Archive/'', ''Error/'']
   \<and> snd (ingest_json_to_bigquery rejecting_b abc_files) = ErrorResponse (LoadFailure ''injected'')
   \<and> snd (ingest_json_to_bigquery rejecting_b abc_files) \<noteq> Message success_message
   \<and> map_of (blobs (fst (ingest_json_to_bigquery rejecting_b abc_files))) ''Archive/evt_a.jsonl''
       = Some insert_line
   \<and> map_of (blobs (fst (ingest_json_to_bigquery rejecting_b abc_files))) ''Error/evt_b.jsonl''
       = Some insert_line
   \<and> map_of (blobs (fst (ingest_json_to_bigquery rejecting_b abc_files))) ''evt_c.jsonl''
       = Some insert_line
   \<and> map_of (blobs (fst (ingest_json_to_bigquery rejecting_b abc_files))) ''Archive/evt_c.jsonl''
       = None
   \<and> map (job_table) (jobs (fst (ingest_json_to_bigquery rejecting_b abc_files))) = [''a'', ''b'']"
  by code_simp

text \<open>
  C1, amended. When the chain for a working-zone \<open>.jsonl\<close> file that exists
  raises, the file is moved to \<open>Error/\<close> and the exception is raised again
  (line 153): the loop ends there, every other blob is as it was before this
  file, and the response of the run is the error.
\<close>

theorem chain_failure_aborts_run:
  assumes "\<not> startswith n ''Error/''" and "\<not> startswith n ''Archive/''"
    and "endswith n ''.jsonl''" and "table_name_of n = Inr t"
    and "list_blobs (create_folders w) = pre @ n # ns"
    and "process_listing sv (create_folders w) pre = (w1, None)"
    and "map_of (blobs w1) n = Some c"
    and "process_blob sv w1 n t = (w2, Some e)"
  shows "ingest_json_to_bigquery sv w = (move_blob_to_folder w2 n ''Error'', ErrorResponse e)
         \<and> map_of (blobs (move_blob_to_folder w2 n ''Error'')) (''Error/'' @ n) = Some c
         \<and> map_of (blobs (move_blob_to_folder w2 n ''Error'')) n = None
         \<and> (\<forall>m. m \<noteq> n \<and> m \<noteq> ''Error/'' @ n \<longrightarrow>
               map_of (blobs (move_blob_to_folder w2 n ''Error'')) m = map_of (blobs w1) m)"
proof -
  have b: "blobs w2 = blobs w1"
    using assms(8) by (rule process_blob_error_blobs)
  have c2: "map_of (blobs w2) n = Some c" using assms(7) b by simp
  have "process_blob_with_error_handling sv w1 n t = (move_blob_to_folder w2 n ''Error'', Some e)"
    using assms(8) by (rule process_blob_with_error_handling_raises)
  then have "process_listing sv w1 (n # ns) = (move_blob_to_folder w2 n ''Error'', Some e)"
    using assms(1,2,3,4) by (simp add: process_listing_candidate)
  with assms(5,6)
  have 1: "ingest_json_to_bigquery sv w = (move_blob_to_folder w2 n ''Error'', ErrorResponse e)"
    by (rule ingest_aborted)
  have look: "map_of (blobs (move_blob_to_folder w2 n ''Error'')) m
      = (if m = n then None else if m = ''Error/'' @ n then Some c else map_of (blobs w1) m)" for m
    using move_blob_to_folder_lookup [OF c2, of "''Error''" m] b by simp
  have ne: "''Error/'' @ n \<noteq> n" using folder_name_neq [of "''Error''" n] by simp
  from 1 look ne show ?thesis by simp
qed

theorem chain_failure_aborts_run_witness:
  "\<not> startswith ''evt_orders.jsonl'' ''Error/'' \<and> \<not> startswith ''evt_orders.jsonl'' ''Archive/''
   \<and> endswith ''evt_orders.jsonl'' ''.jsonl'' \<and> table_name_of ''evt_orders.jsonl'' = Inr ''orders''
   \<and> list_blobs (create_folders orphan_bucket)
       = [] @ ''evt_orders.jsonl'' # [''evt_next.jsonl'', ''Archive/'', ''Error/'']
   \<and> process_listing accepting (create_folders orphan_bucket) []
       = (create_folders orphan_bucket, None)
   \<and> map_of (blobs (create_folders orphan_bucket)) ''evt_orders.jsonl'' = Some orphan_first_file
   \<and> process_blob accepting (create_folders orphan_bucket) ''evt_orders.jsonl'' ''orders''
       = (create_folders orphan_bucket, Some (KeyError ''source_metadata''))
   \<and> snd (ingest_json_to_bigquery accepting orphan_bucket)
       = ErrorResponse (KeyError ''source_metadata'')
   \<and> map_of (blobs (fst (ingest_json_to_bigquery accepting orphan_bucket)))
        ''Error/evt_orders.jsonl'' = Some orphan_first_file
   \<and> map_of (blobs (fst (ingest_json_to_bigquery accepting orphan_bucket)))
        ''evt_next.jsonl'' = Some insert_line"
proof -
  let ?w0 = "create_folders orphan_bucket"
  have h1: "\<not> startswith ''evt_orders.jsonl'' ''Error/''" by code_simp
  have h2: "\<not> startswith ''evt_orders.jsonl'' ''Archive/''" by code_simp
  have h3: "endswith ''evt_orders.jsonl'' ''.jsonl''" by code_simp
  have h4: "table_name_of ''evt_orders.jsonl'' = Inr ''orders''" by code_simp
  have h5: "list_blobs ?w0 = [] @ ''evt_orders.jsonl'' # [''evt_next.jsonl'', ''Archive/'', ''Error/'']"
    by code_simp
  have h6: "process_listing accepting ?w0 [] = (?w0, None)" by simp
  have h7: "map_of (blobs ?w0) ''evt_orders.jsonl'' = Some orphan_first_file" by code_simp
  have h8: "process_blob accepting ?w0 ''evt_orders.jsonl'' ''orders''
              = (?w0, Some (KeyError ''source_metadata''))"
    by code_simp
  note t = chain_failure_aborts_run [OF h1 h2 h3 h4 h5 h6 h7 h8]
  from t have r: "ingest_json_to_bigquery accepting orphan_bucket
      = (move_blob_to_folder ?w0 ''evt_orders.jsonl'' ''Error'',
         ErrorResponse (KeyError ''source_metadata''))"
    by (rule conjunct1)
  from t have e: "map_of (blobs (move_blob_to_folder ?w0 ''evt_orders.jsonl'' ''Error''))
      (''Error/'' @ ''evt_orders.jsonl'') = Some orphan_first_file"
    by blast
  from t have "map_of (blobs (move_blob_to_folder ?w0 ''evt_orders.jsonl'' ''Error''))
      ''evt_next.jsonl'' = map_of (blobs ?w0) ''evt_next.jsonl''"
    by simp
  also have "\<dots> = Some insert_line" by code_simp
  finally have k: "map_of (blobs (move_blob_to_folder ?w0 ''evt_orders.jsonl'' ''Error''))
      ''evt_next.jsonl'' = Some insert_line" .
  from e have e': "map_of (blobs (move_blob_to_folder ?w0 ''evt_orders.jsonl'' ''Error''))
      ''Error/evt_orders.jsonl'' = Some orphan_first_file" by simp
  show ?thesis
    using h1 h2 h3 h4 h5 h6 h7 h8 e' k unfolding r fst_conv snd_conv by blast
qed

subsection \<open>Files without records\<close>

lemma rows_frame_of_records: "rows (frame_of_records records) = records"
  by (simp add: frame_of_records_def DataFrame_def empty_DataFrame_def)

lemma no_rows_empty_frame:
  assumes "load_json_to_dataframe ld content = Inr df" and "rows df = []"
  shows "df = empty_DataFrame"
proof -
  from load_json_to_dataframe_frame [OF assms(1)]
  obtain records where d: "df = frame_of_records records" by blast
  with assms(2) have "records = []" by (simp add: rows_frame_of_records)
  with d show ?thesis by (simp add: frame_of_records_def)
qed

lemma schema_of_empty: "schema_of empty_DataFrame = []"
  by (simp add: schema_of_def empty_DataFrame_def)

lemma blobs_jobs_update: "blobs (w\<lparr>jobs := js\<rparr>) = blobs w"
  by simp

lemma process_blob_with_error_handling_blank:
  assumes "map_of (blobs w) n = Some content" and "is_blank content"
  shows "process_blob_with_error_handling sv w n t = (move_blob_to_folder w n ''Error'', None)"
proof -
  have p: "process_blob sv w n t = (move_blob_to_folder w n ''Error'', None)"
    using assms by (simp add: process_blob_def download_def)
  have "map_of (blobs (move_blob_to_folder w n ''Error'')) n = None"
    using move_blob_to_folder_lookup [OF assms(1), of "''Error''" n] by simp
  then have "\<not> blob_exists (move_blob_to_folder w n ''Error'') n"
    by (simp add: blob_exists_def)
  with p show ?thesis by (simp add: process_blob_with_error_handling_def)
qed

lemma process_blob_with_error_handling_empty_batch:
  assumes "map_of (blobs w) n = Some content" and "\<not> is_blank content"
    and "load_json_to_dataframe (loads sv) content = Inr empty_DataFrame"
    and "load_result sv (jobs w) (empty_job t) = None"
  shows "process_blob_with_error_handling sv w n t
           = (move_blob_to_folder (w\<lparr>jobs := jobs w @ [empty_job t]\<rparr>) n ''Archive'', None)"
proof -
  have p: "process_blob sv w n t = (w\<lparr>jobs := jobs w @ [empty_job t]\<rparr>, None)"
    using assms
    by (simp add: process_blob_def download_def create_or_append_table_def Let_def
          schema_of_empty empty_job_def)
  have "blob_exists (w\<lparr>jobs := jobs w @ [empty_job t]\<rparr>) n"
    using assms(1) by (simp add: blob_exists_def)
  with p show ?thesis by (simp add: process_blob_with_error_handling_def)
qed

lemma empty_batch_step:
  assumes "\<not> startswith n ''Error/''" and "\<not> startswith n ''Archive/''"
    and "endswith n ''.jsonl''" and "table_name_of n = Inr t"
    and "map_of (blobs w) n = Some content"
    and "load_json_to_dataframe (loads sv) content = Inr df" and "rows df = []"
  shows "df = empty_DataFrame \<and> schema_of df = []
    \<and> (is_blank content \<longrightarrow>
         process_listing sv w (n # ns) = process_listing sv (move_blob_to_folder w n ''Error'') ns
         \<and> jobs (move_blob_to_folder w n ''Error'') = jobs w
         \<and> map_of (blobs (move_blob_to_folder w n ''Error'')) (''Error/'' @ n) = Some content
         \<and> map_of (blobs (move_blob_to_folder w n ''Error'')) (''Archive/'' @ n)
             = map_of (blobs w) (''Archive/'' @ n))
    \<and> (\<not> is_blank content \<and> load_result sv (jobs w) (empty_job t) = None \<longrightarrow>
         process_listing sv w (n # ns)
           = process_listing sv
               (move_blob_to_folder (w\<lparr>jobs := jobs w @ [empty_job t]\<rparr>) n ''Archive'') ns
         \<and> map_of (blobs (move_blob_to_folder (w\<lparr>jobs := jobs w @ [empty_job t]\<rparr>) n ''Archive''))
              (''Archive/'' @ n) = Some content
         \<and> map_of (blobs (move_blob_to_folder (w\<lparr>jobs := jobs w @ [empty_job t]\<rparr>) n ''Archive''))
              n = None
         \<and> map_of (blobs (move_blob_to_folder (w\<lparr>jobs := jobs w @ [empty_job t]\<rparr>) n ''Archive''))
              (''Error/'' @ n) = map_of (blobs w) (''Error/'' @ n))"
proof (intro conjI impI)
  show df: "df = empty_DataFrame" using assms(6,7) by (rule no_rows_empty_frame)
  then show "schema_of df = []" by (simp add: schema_of_empty)
  have ne_e: "''Error/'' @ n \<noteq> n" using folder_name_neq [of "''Error''" n] by simp
  have ne_a: "''Archive/'' @ n \<noteq> n" using folder_name_neq [of "''Archive''" n] by simp
  have ne_ea: "''Error/'' @ n \<noteq> ''Archive/'' @ n" by simp
  {
    assume b: "is_blank content"
    have "process_blob_with_error_handling sv w n t = (move_blob_to_folder w n ''Error'', None)"
      using assms(5) b by (rule process_blob_with_error_handling_blank)
    then show "process_listing sv w (n # ns)
                 = process_listing sv (move_blob_to_folder w n ''Error'') ns"
      using assms(1,2,3,4) by (simp add: process_listing_candidate)
    show "jobs (move_blob_to_folder w n ''Error'') = jobs w"
      by (rule jobs_move_blob_to_folder)
    show "map_of (blobs (move_blob_to_folder w n ''Error'')) (''Error/'' @ n) = Some content"
      using move_blob_to_folder_lookup [OF assms(5), of "''Error''" "''Error/'' @ n"] ne_e
      by simp
    show "map_of (blobs (move_blob_to_folder w n ''Error'')) (''Archive/'' @ n)
            = map_of (blobs w) (''Archive/'' @ n)"
      using move_blob_to_folder_lookup [OF assms(5), of "''Error''" "''Archive/'' @ n"] ne_a
      by simp
  }
  {
    assume a: "\<not> is_blank content \<and> load_result sv (jobs w) (empty_job t) = None"
    let ?w = "w\<lparr>jobs := jobs w @ [empty_job t]\<rparr>"
    have c: "map_of (blobs ?w) n = Some content" using assms(5) by simp
    have l: "load_json_to_dataframe (loads sv) content = Inr empty_DataFrame"
      using assms(6) df by simp
    have "process_blob_with_error_handling sv w n t = (move_blob_to_folder ?w n ''Archive'', None)"
      using assms(5) a l by (simp add: process_blob_with_error_handling_empty_batch)
    then show "process_listing sv w (n # ns)
                 = process_listing sv (move_blob_to_folder ?w n ''Archive'') ns"
      using assms(1,2,3,4) by (simp add: process_listing_candidate)
    show "map_of (blobs (move_blob_to_folder ?w n ''Archive'')) (''Archive/'' @ n) = Some content"
      using move_blob_to_folder_lookup [OF c, of "''Archive''" "''Archive/'' @ n"] ne_a
      by simp
    show "map_of (blobs (move_blob_to_folder ?w n ''Archive'')) n = None"
      using move_blob_to_folder_lookup [OF c, of "''Archive''" n] by simp
    show "map_of (blobs (move_blob_to_folder ?w n ''Archive'')) (''Error/'' @ n)
            = map_of (blobs w) (''Error/'' @ n)"
      using move_blob_to_folder_lookup [OF c, of "''Archive''" "''Error/'' @ n"] ne_e
      by simp
  }
qed

text \<open>
  C3, as stated, fails three times. A file that holds one space has no
  qualifying line, and \<open>process_blob\<close> moves it to \<open>Error/\<close> without a load
  (line 96). A file whose only line is an object without payload gives the
  frame without rows, which is submitted like any other frame; when the
  warehouse fails that job the file goes to \<open>Error/\<close> and the run answers with
  the error. And such a file named \<open>orders.jsonl\<close> is neither loaded nor moved:
  line 187 raises before the file is read.
\<close>

theorem empty_batch_not_always_archived:
  "load_json_to_dataframe example_loads '' '' = Inr empty_DataFrame
   \<and> ingest_json_to_bigquery accepting blank_bucket
       = (\<lparr>blobs = [(''Archive/'', []), (''Error/'', []), (''Error/evt_orders.jsonl'', '' '')],
            jobs = []\<rparr>, Message success_message)
   \<and> load_json_to_dataframe example_loads heartbeat_line = Inr empty_DataFrame
   \<and> ingest_json_to_bigquery rejecting_empty heartbeat_bucket
       = (\<lparr>blobs = [(''Archive/'', []), (''Error/'', []),
                     (''Error/evt_orders.jsonl'', heartbeat_line)],
            jobs = [empty_job ''orders'']\<rparr>, ErrorResponse (LoadFailure ''no schema''))
   \<and> ingest_json_to_bigquery accepting unnamed_quiet_bucket
       = (unnamed_quiet_bucket, ErrorResponse IndexError)"
  by code_simp

text \<open>
  C3, amended. In a bucket whose blob names are distinct, take a file that the
  loop reaches (the loop over the names before it has ended without an
  exception), that is in the working zone, ends in \<open>.jsonl\<close>, has a table name
  (a second underscore-delimited segment), and whose content at the start of
  the run gives a frame without rows. That frame has no column, hence the empty
  schema. When the content is blank the file is moved to \<open>Error/\<close>, no load
  job is submitted, and the run goes on with the next name. When the content is
  not blank the empty load job is submitted like any other, and when the
  warehouse commits it the file is moved to \<open>Archive/\<close>, what is under its
  \<open>Error/\<close> name is untouched, and the run goes on with the next name.
\<close>

theorem reached_empty_batch_relocation:
  assumes "distinct (list_blobs w)"
    and "list_blobs (create_folders w) = pre @ n # ns"
    and "process_listing sv (create_folders w) pre = (w1, None)"
    and "\<not> startswith n ''Error/''" and "\<not> startswith n ''Archive/''"
    and "endswith n ''.jsonl''" and "table_name_of n = Inr t"
    and "map_of (blobs (create_folders w)) n = Some content"
    and "load_json_to_dataframe (loads sv) content = Inr df" and "rows df = []"
  shows "df = empty_DataFrame \<and> schema_of df = []
    \<and> (is_blank content \<longrightarrow>
         ingest_json_to_bigquery sv w
           = (case process_listing sv (move_blob_to_folder w1 n ''Error'') ns of
                (w2, None) \<Rightarrow> (w2, Message success_message)
              | (w2, Some e) \<Rightarrow> (w2, ErrorResponse e))
         \<and> jobs (move_blob_to_folder w1 n ''Error'') = jobs w1
         \<and> map_of (blobs (move_blob_to_folder w1 n ''Error'')) (''Error/'' @ n) = Some content
         \<and> map_of (blobs (move_blob_to_folder w1 n ''Error'')) n = None
         \<and> map_of (blobs (move_blob_to_folder w1 n ''Error'')) (''Archive/'' @ n)
             = map_of (blobs w1) (''Archive/'' @ n))
    \<and> (\<not> is_blank content \<and> load_result sv (jobs w1) (empty_job t) = None \<longrightarrow>
         ingest_json_to_bigquery sv w
           = (case process_listing sv
                     (move_blob_to_folder (w1\<lparr>jobs := jobs w1 @ [empty_job t]\<rparr>) n ''Archive'') ns of
                (w2, None) \<Rightarrow> (w2, Message success_message)
              | (w2, Some e) \<Rightarrow> (w2, ErrorResponse e))
         \<and> map_of (blobs (move_blob_to_folder (w1\<lparr>jobs := jobs w1 @ [empty_job t]\<rparr>) n ''Archive''))
              (''Archive/'' @ n) = Some content
         \<and> map_of (blobs (move_blob_to_folder (w1\<lparr>jobs := jobs w1 @ [empty_job t]\<rparr>) n ''Archive''))
              n = None
         \<and> map_of (blobs (move_blob_to_folder (w1\<lparr>jobs := jobs w1 @ [empty_job t]\<rparr>) n ''Archive''))
              (''Error/'' @ n) = map_of (blobs w1) (''Error/'' @ n))"
proof -
  let ?w0 = "create_folders w"
  have d: "distinct (list_blobs ?w0)" using assms(1) by (rule distinct_create_folders)
  from reached_blob_unchanged [OF d assms(2,3,4,5)] assms(8)
  have c: "map_of (blobs w1) n = Some content" by simp
  note step = empty_batch_step [OF assms(4,5,6,7) c assms(9,10), of ns]
  have whole: "process_listing sv ?w0 (list_blobs ?w0) = process_listing sv w1 (n # ns)"
    unfolding assms(2) using assms(3) by (rule process_listing_reached)
  have lift: "ingest_json_to_bigquery sv w
      = (case process_listing sv w' ns of
           (w2, None) \<Rightarrow> (w2, Message success_message)
         | (w2, Some e) \<Rightarrow> (w2, ErrorResponse e))"
    if "process_listing sv w1 (n # ns) = process_listing sv w' ns" for w'
    using whole that by (simp only: ingest_json_to_bigquery_listing)
  have ne: "''Error/'' @ n \<noteq> n" using folder_name_neq [of "''Error''" n] by simp
  have blank_n: "map_of (blobs (move_blob_to_folder w1 n ''Error'')) n = None"
    using move_blob_to_folder_lookup [OF c, of "''Error''" n] by simp
  from step have 1: "df = empty_DataFrame \<and> schema_of df = []" by blast
  from step have 2: "is_blank content \<longrightarrow>
         ingest_json_to_bigquery sv w
           = (case process_listing sv (move_blob_to_folder w1 n ''Error'') ns of
                (w2, None) \<Rightarrow> (w2, Message success_message)
              | (w2, Some e) \<Rightarrow> (w2, ErrorResponse e))
         \<and> jobs (move_blob_to_folder w1 n ''Error'') = jobs w1
         \<and> map_of (blobs (move_blob_to_folder w1 n ''Error'')) (''Error/'' @ n) = Some content
         \<and> map_of (blobs (move_blob_to_folder w1 n ''Error'')) n = None
         \<and> map_of (blobs (move_blob_to_folder w1 n ''Error'')) (''Archive/'' @ n)
             = map_of (blobs w1) (''Archive/'' @ n)"
    using lift [of "move_blob_to_folder w1 n ''Error''"] blank_n by blast
  from step have 3: "\<not> is_blank content \<and> load_result sv (jobs w1) (empty_job t) = None \<longrightarrow>
         ingest_json_to_bigquery sv w
           = (case process_listing sv
                     (move_blob_to_folder (w1\<lparr>jobs := jobs w1 @ [empty_job t]\<rparr>) n ''Archive'') ns of
                (w2, None) \<Rightarrow> (w2, Message success_message)
              | (w2, Some e) \<Rightarrow> (w2, ErrorResponse e))
         \<and> map_of (blobs (move_blob_to_folder (w1\<lparr>jobs := jobs w1 @ [empty_job t]\<rparr>) n ''Archive''))
              (''Archive/'' @ n) = Some content
         \<and> map_of (blobs (move_blob_to_folder (w1\<lparr>jobs := jobs w1 @ [empty_job t]\<rparr>) n ''Archive''))
              n = None
         \<and> map_of (blobs (move_blob_to_folder (w1\<lparr>jobs := jobs w1 @ [empty_job t]\<rparr>) n ''Archive''))
              (''Error/'' @ n) = map_of (blobs w1) (''Error/'' @ n)"
    using lift [of "move_blob_to_folder (w1\<lparr>jobs := jobs w1 @ [empty_job t]\<rparr>) n ''Archive''"]
    by blast
  from 1 2 3 show ?thesis by (intro conjI) blast+
qed

theorem reached_empty_batch_relocation_witness:
  "distinct (list_blobs quiet_bucket)
   \<and> list_blobs (create_folders quiet_bucket) = [''Archive/'', ''Error/''] @ ''evt_orders.jsonl'' # []
   \<and> process_listing accepting (create_folders quiet_bucket) [''Archive/'', ''Error/'']
       = (quiet_bucket, None)
   \<and> \<not> startswith ''evt_orders.jsonl'' ''Error/'' \<and> \<not> startswith ''evt_orders.jsonl'' ''Archive/''
   \<and> endswith ''evt_orders.jsonl'' ''.jsonl'' \<and> table_name_of ''evt_orders.jsonl'' = Inr ''orders''
   \<and> map_of (blobs (create_folders quiet_bucket)) ''evt_orders.jsonl'' = Some heartbeat_line
   \<and> load_json_to_dataframe (loads accepting) heartbeat_line = Inr empty_DataFrame
   \<and> rows empty_DataFrame = []
   \<and> \<not> is_blank heartbeat_line
   \<and> load_result accepting (jobs quiet_bucket) (empty_job ''orders'') = None
   \<and> ingest_json_to_bigquery accepting quiet_bucket
       = (\<lparr>blobs = [(''Archive/'', []), (''Error/'', []),
                     (''Archive/evt_orders.jsonl'', heartbeat_line)],
            jobs = [empty_job ''orders'']\<rparr>, Message success_message)
   \<and> distinct (list_blobs blank_marked_bucket)
   \<and> list_blobs (create_folders blank_marked_bucket)
       = [''Archive/'', ''Error/''] @ ''evt_orders.jsonl'' # []
   \<and> process_listing accepting (create_folders blank_marked_bucket) [''Archive/'', ''Error/'']
       = (blank_marked_bucket, None)
   \<and> map_of (blobs (create_folders blank_marked_bucket)) ''evt_orders.jsonl'' = Some '' ''
   \<and> load_json_to_dataframe (loads accepting) '' '' = Inr empty_DataFrame
   \<and> is_blank '' ''
   \<and> ingest_json_to_bigquery accepting blank_marked_bucket
       = (\<lparr>blobs = [(''Archive/'', []), (''Error/'', []), (''Error/evt_orders.jsonl'', '' '')],
            jobs = []\<rparr>, Message success_message)"
proof -
  let ?n = "''evt_orders.jsonl''"
  have d: "distinct (list_blobs quiet_bucket)" by code_simp
  have l: "list_blobs (create_folders quiet_bucket) = [''Archive/'', ''Error/''] @ ?n # []"
    by code_simp
  have p: "process_listing accepting (create_folders quiet_bucket) [''Archive/'', ''Error/'']
             = (quiet_bucket, None)" by code_simp
  have h1: "\<not> startswith ?n ''Error/''" by code_simp
  have h2: "\<not> startswith ?n ''Archive/''" by code_simp
  have h3: "endswith ?n ''.jsonl''" by code_simp
  have h4: "table_name_of ?n = Inr ''orders''" by code_simp
  have h5: "map_of (blobs (create_folders quiet_bucket)) ?n = Some heartbeat_line" by code_simp
  have h6: "load_json_to_dataframe (loads accepting) heartbeat_line = Inr empty_DataFrame"
    by code_simp
  have h7: "rows empty_DataFrame = []" by code_simp
  have nb: "\<not> is_blank heartbeat_line" by code_simp
  have ok: "load_result accepting (jobs quiet_bucket) (empty_job ''orders'') = None" by code_simp
  have nbok: "\<not> is_blank heartbeat_line
      \<and> load_result accepting (jobs quiet_bucket) (empty_job ''orders'') = None"
    using nb ok by (rule conjI)
  have m1: "(case process_listing accepting
                 (move_blob_to_folder (quiet_bucket\<lparr>jobs := jobs quiet_bucket @ [empty_job ''orders'']\<rparr>)
                    ?n ''Archive'') [] of
               (w2, None) \<Rightarrow> (w2, Message success_message)
             | (w2, Some e) \<Rightarrow> (w2, ErrorResponse e))
            = (\<lparr>blobs = [(''Archive/'', []), (''Error/'', []),
                          (''Archive/evt_orders.jsonl'', heartbeat_line)],
                 jobs = [empty_job ''orders'']\<rparr>, Message success_message)"
    by code_simp
  from reached_empty_batch_relocation [OF d l p h1 h2 h3 h4 h5 h6 h7,
      THEN conjunct2, THEN conjunct2, THEN conjunct2, THEN mp, OF nbok, THEN conjunct1]
  have r1: "ingest_json_to_bigquery accepting quiet_bucket
       = (\<lparr>blobs = [(''Archive/'', []), (''Error/'', []),
                     (''Archive/evt_orders.jsonl'', heartbeat_line)],
            jobs = [empty_job ''orders'']\<rparr>, Message success_message)"
    unfolding m1 .
  have d': "distinct (list_blobs blank_marked_bucket)" by code_simp
  have l': "list_blobs (create_folders blank_marked_bucket) = [''Archive/'', ''Error/''] @ ?n # []"
    by code_simp
  have p': "process_listing accepting (create_folders blank_marked_bucket) [''Archive/'', ''Error/'']
             = (blank_marked_bucket, None)" by code_simp
  have g5: "map_of (blobs (create_folders blank_marked_bucket)) ?n = Some '' ''" by code_simp
  have g6: "load_json_to_dataframe (loads accepting) '' '' = Inr empty_DataFrame" by code_simp
  have b: "is_blank '' ''" by code_simp
  have m2: "(case process_listing accepting (move_blob_to_folder blank_marked_bucket ?n ''Error'') [] of
               (w2, None) \<Rightarrow> (w2, Message success_message)
             | (w2, Some e) \<Rightarrow> (w2, ErrorResponse e))
            = (\<lparr>blobs = [(''Archive/'', []), (''Error/'', []), (''Error/evt_orders.jsonl'', '' '')],
                 jobs = []\<rparr>, Message success_message)"
    by code_simp
  from reached_empty_batch_relocation [OF d' l' p' h1 h2 h3 h4 g5 g6 h7,
      THEN conjunct2, THEN conjunct2, THEN conjunct1, THEN mp, OF b, THEN conjunct1]
  have r2: "ingest_json_to_bigquery accepting blank_marked_bucket
       = (\<lparr>blobs = [(''Archive/'', []), (''Error/'', []), (''Error/evt_orders.jsonl'', '' '')],
            jobs = []\<rparr>, Message success_message)"
    unfolding m2 .
  show ?thesis
    by (intro conjI d l p h1 h2 h3 h4 h5 h6 h7 nb ok r1 d' l' p' g5 g6 b r2)
qed

end
